theory Spec2Isabelle
  imports Main
begin

section \<open>Data model\<close>

text \<open>
  The ledger client (ethers provider and signer) is an external collaborator. Every call
  to it is a suspension point whose answer the program cannot compute, so the model takes
  each answer as an argument: a rejected promise is \<open>Inl\<close> of the thrown error, a
  fulfilled one \<open>Inr\<close> of its value. Amounts in wei are JavaScript BigInts, modelled as
  \<open>int\<close>. Transaction counts and the statistics counters are JavaScript numbers holding
  small non-negative integers (ethers returns a count as a safe integer), modelled as
  \<open>nat\<close>; the loss of precision above \<open>2^53\<close> is outside the model.
\<close>

type_synonym address = string
type_synonym wei = int

datatype error = Error (message: string)

datatype wallet = Wallet (address: address)

record wallet_manager =
  masterWallet :: wallet
  childWallets :: "wallet list"
  nonces :: "address \<rightharpoonup> nat"

text \<open>The constructor of \<open>WalletManager\<close>: no child wallet, an empty nonce map.\<close>

definition new_WalletManager :: "wallet \<Rightarrow> wallet_manager" where
  "new_WalletManager master =
     \<lparr>masterWallet = master, childWallets = [], nonces = Map.empty\<rparr>"

section \<open>Nonce allocation (WalletManager.updateNonce, WalletManager.getNextNonce)\<close>

text \<open>
  \<open>updateNonce\<close> awaits \<open>provider.getTransactionCount(walletAddress, 'pending')\<close>; its
  first argument is the answer to that call. A rejected query leaves the map alone.
\<close>

definition updateNonce ::
  "error + nat \<Rightarrow> address \<Rightarrow> wallet_manager \<Rightarrow> error + (nat \<times> wallet_manager)" where
  "updateNonce getTransactionCount walletAddress wm =
     (case getTransactionCount of
        Inl e \<Rightarrow> Inl e
      | Inr currentNonce \<Rightarrow>
          Inr (currentNonce, wm\<lparr>nonces := (nonces wm)(walletAddress \<mapsto> currentNonce)\<rparr>))"

text \<open>
  \<open>getNextNonce\<close> is synchronous and takes no answer of the ledger.
  \<open>this.nonces.get(a) || 0\<close> is \<open>0\<close> for a missing entry and for a stored \<open>0\<close>.
\<close>

definition getNextNonce :: "address \<Rightarrow> wallet_manager \<Rightarrow> nat \<times> wallet_manager" where
  "getNextNonce walletAddress wm =
     (let currentNonce = (case nonces wm walletAddress of
                            None \<Rightarrow> 0
                          | Some n \<Rightarrow> (if n = 0 then 0 else n))
      in (currentNonce, wm\<lparr>nonces := (nonces wm)(walletAddress \<mapsto> currentNonce + 1)\<rparr>))"

text \<open>
  A run of \<open>getNextNonce\<close> calls, for any addresses in any order, with no \<open>updateNonce\<close>
  in between: the pairs (address, value returned), in call order, and the final manager.
\<close>

fun allocate_all ::
  "address list \<Rightarrow> wallet_manager \<Rightarrow> (address \<times> nat) list \<times> wallet_manager" where
  "allocate_all [] wm = ([], wm)"
| "allocate_all (a # as) wm =
     (let (n, wm') = getNextNonce a wm;
          (rs, wm'') = allocate_all as wm'
      in ((a, n) # rs, wm''))"

text \<open>The values returned for one address, in call order.\<close>

definition returned_for :: "address \<Rightarrow> (address \<times> nat) list \<Rightarrow> nat list" where
  "returned_for a rs = map snd (filter (\<lambda>r. fst r = a) rs)"

section \<open>The gas reserve (JavaScript number arithmetic and ethers.parseEther)\<close>

text \<open>
  \<open>distributeFunds\<close> computes
  \<^verbatim>\<open>ethers.parseEther((0.01 * this.childWallets.length).toString())\<close>.
  The product is an IEEE 754 double, \<open>toString\<close> prints the shortest decimal that reads
  back as that double, and \<open>parseEther\<close> reads the decimal as an amount with 18 decimals.
  The three steps are modelled exactly, on integers.

  The double nearest to \<open>0.01\<close> is \<open>5764607523034235 / 2^59\<close>. A positive double is a
  pair \<open>(m, e)\<close> standing for \<open>m * 2^e\<close>, with \<open>2^52 \<le> m < 2^53\<close>. The length of an
  array is below \<open>2^32\<close>, so it is itself a double and the product is a normal number.
\<close>

definition double_001 :: nat where
  "double_001 = 5764607523034235"

fun bitlen :: "nat \<Rightarrow> nat" where
  "bitlen n = (if n = 0 then 0 else Suc (bitlen (n div 2)))"

declare bitlen.simps [simp del]

text \<open>
  \<open>0.01 * w\<close> for \<open>w > 0\<close>: the exact product \<open>double_001 * w / 2^59\<close>, rounded to 53
  significant bits, ties to the even significand.
\<close>

definition times_001 :: "nat \<Rightarrow> nat \<times> int" where
  "times_001 w =
     (let num = double_001 * w;
          sh = bitlen num - 53;
          q = num div 2 ^ sh;
          r = num mod 2 ^ sh;
          m = (if 2 * r > 2 ^ sh \<or> (2 * r = 2 ^ sh \<and> odd q) then q + 1 else q)
      in if m = 2 ^ 53 then (2 ^ 52, int sh + 1 - 59) else (m, int sh - 59))"

text \<open>Powers of two and ten with an integer exponent, as a numerator and a denominator.\<close>

definition pow_frac :: "nat \<Rightarrow> int \<Rightarrow> nat \<times> nat" where
  "pow_frac b e = (if 0 \<le> e then (b ^ nat e, 1) else (1, b ^ nat (- e)))"

fun ndigits :: "nat \<Rightarrow> nat" where
  "ndigits n = (if n < 10 then 1 else Suc (ndigits (n div 10)))"

declare ndigits.simps [simp del]

text \<open>
  The decimal \<open>s * 10^p\<close> reads back as the double \<open>(m, e)\<close>: it lies between the midpoints
  to the two neighbouring doubles, the midpoints included when \<open>m\<close> is even. In units of
  a quarter of \<open>2^e\<close> the double is \<open>4 * m\<close>, the upper midpoint \<open>4 * m + 2\<close> and the lower
  one \<open>4 * m - 2\<close>, or \<open>4 * m - 1\<close> when \<open>m = 2^52\<close> (the neighbour below is half as far).
\<close>

definition reads_back :: "nat \<Rightarrow> int \<Rightarrow> nat \<Rightarrow> int \<Rightarrow> bool" where
  "reads_back m e s p =
     (let (un, ud) = pow_frac 2 (e - 2);
          (tn, td) = pow_frac 10 p;
          v = s * tn * ud;
          lo = (4 * m - (if m = 2 ^ 52 then 1 else 2)) * un * td;
          hi = (4 * m + 2) * un * td
      in if even m then lo \<le> v \<and> v \<le> hi else lo < v \<and> v < hi)"

text \<open>
  The decimal exponent \<open>n\<close> of the double, \<open>10^(n-1) \<le> m * 2^e < 10^n\<close>: the number of digits
  of its integer part, or for a value below one, from the digits of its reciprocal.
\<close>

definition decimal_exponent :: "nat \<Rightarrow> int \<Rightarrow> int" where
  "decimal_exponent m e =
     (let (xn, xd) = pow_frac 2 e;
          num = m * xn
      in if xd \<le> num then int (ndigits (num div xd))
         else 1 - int (ndigits ((xd + num - 1) div num - 1)))"

text \<open>
  Number::toString (ECMA-262): the digits \<open>s\<close> and the exponent \<open>p\<close> such that \<open>s\<close> has
  \<open>k\<close> digits, \<open>s * 10^p\<close> reads back as the double, and \<open>k\<close> is as small as possible; of
  two such \<open>s\<close> the closer to the double, and the even one when they are as close.
  Seventeen digits always suffice for a double.
\<close>

definition candidate :: "nat \<Rightarrow> int \<Rightarrow> nat \<Rightarrow> (nat \<times> int) option" where
  "candidate m e k =
     (let (xn, xd) = pow_frac 2 e;
          p = decimal_exponent m e - int k;
          (tn, td) = pow_frac 10 p;
          s = (m * xn * td) div (xd * tn);
          below = m * xn * td - s * tn * xd;
          above = (s + 1) * tn * xd - m * xn * td
      in if reads_back m e s p \<and> reads_back m e (s + 1) p then
           (if below < above \<or> (below = above \<and> even s) then Some (s, p) else Some (s + 1, p))
         else if reads_back m e s p then Some (s, p)
         else if reads_back m e (s + 1) p then Some (s + 1, p)
         else None)"

function shortest_decimal :: "nat \<Rightarrow> int \<Rightarrow> nat \<Rightarrow> (nat \<times> int) option" where
  "shortest_decimal m e k =
     (if 17 < k then None
      else case candidate m e k of
             Some sp \<Rightarrow> Some sp
           | None \<Rightarrow> shortest_decimal m e (k + 1))"
  by pat_completeness auto
termination
  by (relation "measure (\<lambda>(m, e, k). 18 - k)") auto

declare shortest_decimal.simps [simp del]

text \<open>
  \<open>ethers.parseEther\<close> of the printed number \<open>s * 10^p\<close>. \<open>toString\<close> prints a number of
  more than 21 integer digits, or with six or more zeros after the point, with an
  exponent, which \<open>parseEther\<close> rejects; so it does a decimal with a non-zero digit past
  the eighteenth place. Otherwise the result is \<open>s * 10^(p + 18)\<close> wei.
\<close>

definition parseEther_decimal :: "nat \<Rightarrow> int \<Rightarrow> error + wei" where
  "parseEther_decimal s p =
     (let n = p + int (ndigits s)
      in if 21 < n \<or> n \<le> - 6 then Inl (Error ''invalid FixedNumber string value'')
         else if 0 \<le> p + 18 then Inr (int (s * 10 ^ nat (p + 18)))
         else if s mod 10 ^ nat (- (p + 18)) = 0 then Inr (int (s div 10 ^ nat (- (p + 18))))
         else Inl (Error ''too many decimals for format''))"

text \<open>
  \<open>gasReserve w\<close> is \<open>ethers.parseEther((0.01 * w).toString())\<close>. For \<open>w = 0\<close> the product
  is \<open>0\<close>, printed \<open>"0"\<close>.
\<close>

definition gasReserve :: "nat \<Rightarrow> error + wei" where
  "gasReserve w =
     (if w = 0 then Inr 0
      else case times_001 w of
             (m, e) \<Rightarrow>
               (case shortest_decimal m e 1 of
                  None \<Rightarrow> Inl (Error ''invalid FixedNumber string value'')
                | Some (s, p) \<Rightarrow> parseEther_decimal s p))"

section \<open>Wallet creation (WalletManager.createWallets) and config.validateConfig\<close>

text \<open>
  \<open>ethers.Wallet.createRandom()\<close> is the key collaborator: \<open>createRandom i\<close> is the wallet
  its \<open>i\<close>-th call within one \<open>createWallets\<close> returns. \<open>numWallets\<close> is the integer
  that \<open>parseInt\<close> read from the environment. The loop has no check of \<open>numWallets\<close> and no
  \<open>throw\<close>; the function returns the whole pool \<open>this.childWallets\<close>.
\<close>

function createWallets_loop ::
  "(nat \<Rightarrow> wallet) \<Rightarrow> int \<Rightarrow> nat \<Rightarrow> wallet_manager \<Rightarrow> wallet_manager" where
  "createWallets_loop createRandom numWallets i wm =
     (if int i < numWallets then
        (let wallet = createRandom i
         in createWallets_loop createRandom numWallets (i + 1)
              (wm\<lparr>childWallets := childWallets wm @ [wallet],
                  nonces := (nonces wm)(address wallet \<mapsto> 0)\<rparr>))
      else wm)"
  by pat_completeness auto
termination
  by (relation "measure (\<lambda>(createRandom, numWallets, i, wm). nat (numWallets - int i))") auto

declare createWallets_loop.simps [simp del]

definition createWallets ::
  "(nat \<Rightarrow> wallet) \<Rightarrow> int \<Rightarrow> wallet_manager \<Rightarrow> error + (wallet list \<times> wallet_manager)" where
  "createWallets createRandom numWallets wm =
     (let wm' = createWallets_loop createRandom numWallets 0 wm
      in Inr (childWallets wm', wm'))"

text \<open>
  The configuration of \<open>config.js\<close>. \<open>privateKey\<close> is \<open>undefined\<close> (\<open>None\<close>) when the
  variable is not set; an empty string is falsy as well.
\<close>

record load_tester_config =
  transactionsPerWallet :: int
  intervalMs :: int
  gasLimit :: int
  gasPrice :: string
  transactionAmount :: string

record config = load_tester_config +
  privateKey :: "string option"
  rpcUrl :: string
  numWallets :: int

fun join :: "string list \<Rightarrow> string \<Rightarrow> string" where
  "join [] sep = []"
| "join [x] sep = x"
| "join (x # y # ys) sep = x @ sep @ join (y # ys) sep"

definition config_errors :: "config \<Rightarrow> string list" where
  "config_errors cfg =
       (if privateKey cfg = None \<or> privateKey cfg = Some [] then
          [''PRIVATE_KEY is required in .env file''] else [])
     @ (if rpcUrl cfg = [] then [''RPC_URL is required in .env file''] else [])
     @ (if numWallets cfg \<le> 0 then [''NUM_WALLETS must be greater than 0''] else [])
     @ (if transactionsPerWallet cfg \<le> 0 then
          [''TRANSACTIONS_PER_WALLET must be greater than 0''] else [])
     @ (if intervalMs cfg < 0 then
          [''TRANSACTION_INTERVAL_MS must be non-negative''] else [])"

definition validateConfig :: "config \<Rightarrow> error + unit" where
  "validateConfig cfg =
     (let errors = config_errors cfg
      in if length errors > 0 then
           Inl (Error (''Configuration validation failed:'' @ [CHR 0x0A] @ join errors [CHR 0x0A]))
         else Inr ())"

text \<open>A key collaborator for the examples: the \<open>i\<close>-th wallet has an address of \<open>i + 1\<close> letters.\<close>

definition sample_createRandom :: "nat \<Rightarrow> wallet" where
  "sample_createRandom i = Wallet (replicate (Suc i) CHR ''a'')"

section \<open>Fund distribution (WalletManager.distributeFunds)\<close>

text \<open>
  A transfer request as handed to \<open>sendTransaction\<close>, and what the ledger does with it:
  the broadcast is rejected, or it returns a transaction whose \<open>wait()\<close> is rejected or
  returns a receipt (the terminal state of the transaction).
\<close>

record tx_request =
  tx_from :: address
  tx_to :: address
  tx_value :: wei
  tx_nonce :: nat

datatype receipt = Receipt (status: "nat option") (blockNumber: nat)

datatype wait_outcome = WaitThrows error | Mined receipt

datatype send_outcome = SendThrows error | Broadcast string wait_outcome

text \<open>
  The answers of the ledger during one \<open>distributeFunds\<close>: the balance of the master
  wallet, its pending transaction count, and the outcome of each transfer. Every request
  of one distribution has its own nonce, so a function of the request can give each
  transfer any outcome.
\<close>

record distribute_env =
  d_getBalance :: "error + wei"
  d_getTransactionCount :: "error + nat"
  d_sendTransaction :: "tx_request \<Rightarrow> send_outcome"

text \<open>BigInt division truncates towards zero and throws a RangeError on a zero divisor.\<close>

definition bigint_div :: "int \<Rightarrow> int \<Rightarrow> error + int" where
  "bigint_div a b =
     (if b = 0 then Inl (Error ''Division by zero'')
      else Inr (sgn a * sgn b * (\<bar>a\<bar> div \<bar>b\<bar>)))"

text \<open>
  Lines 28 to 40 of \<open>distributeFunds\<close>: from the master balance and the number of child
  wallets to the gas reserve, the available balance and the amount per wallet.
\<close>

record plan =
  plan_gasReserve :: wei
  plan_availableBalance :: wei
  plan_amountPerWallet :: wei

definition distribution_plan :: "wei \<Rightarrow> nat \<Rightarrow> error + plan" where
  "distribution_plan masterBalance n =
     (if masterBalance = 0 then Inl (Error ''Master wallet has no funds to distribute'')
      else case gasReserve n of
             Inl e \<Rightarrow> Inl e
           | Inr reserve \<Rightarrow>
               (let availableBalance = masterBalance - reserve
                in if availableBalance \<le> 0 then
                     Inl (Error ''Insufficient funds after reserving gas'')
                   else case bigint_div availableBalance (int n) of
                          Inl e \<Rightarrow> Inl e
                        | Inr amountPerWallet \<Rightarrow>
                            Inr \<lparr>plan_gasReserve = reserve,
                                 plan_availableBalance = availableBalance,
                                 plan_amountPerWallet = amountPerWallet\<rparr>))"

text \<open>
  The callback of \<open>batch.map\<close>: the request it sends, and the error it rethrows if the
  broadcast or the wait is rejected. The nonce is read before the first \<open>await\<close>.
\<close>

definition settled :: "send_outcome \<Rightarrow> error option" where
  "settled out =
     (case out of
        SendThrows e \<Rightarrow> Some e
      | Broadcast h w \<Rightarrow> (case w of WaitThrows e \<Rightarrow> Some e | Mined r \<Rightarrow> None))"

definition transfer_task ::
  "distribute_env \<Rightarrow> wallet_manager \<Rightarrow> wei \<Rightarrow> nat \<Rightarrow> nat \<Rightarrow> wallet \<Rightarrow> tx_request \<times> error option" where
  "transfer_task env wm amountPerWallet currentNonce batchIndex wallet =
     (let txNonce = currentNonce + batchIndex;
          req = \<lparr>tx_from = address (masterWallet wm), tx_to = address wallet,
                 tx_value = amountPerWallet, tx_nonce = txNonce\<rparr>
      in (req, settled (d_sendTransaction env req)))"

text \<open>
  \<open>Promise.all\<close> is rejected as soon as one of its promises is, with that error, and the
  other promises stay in flight. Which rejection comes first is the ledger's timing; the
  model takes the first in array order.
\<close>

fun first_rejection :: "error option list \<Rightarrow> error option" where
  "first_rejection [] = None"
| "first_rejection (None # rs) = first_rejection rs"
| "first_rejection (Some e # rs) = Some e"

text \<open>
  The loop over the batches. The result is what \<open>distributeFunds\<close> returns or throws, and
  the requests handed to \<open>sendTransaction\<close>, batch by batch in the order issued.
\<close>

definition batchSize :: nat where
  "batchSize = 20"

function distribute_batches ::
  "distribute_env \<Rightarrow> wallet_manager \<Rightarrow> wei \<Rightarrow> nat \<Rightarrow> nat \<Rightarrow> (error + unit) \<times> tx_request list list" where
  "distribute_batches env wm amountPerWallet currentNonce batchStart =
     (if batchStart < length (childWallets wm) then
        (let batchEnd = min (batchStart + batchSize) (length (childWallets wm));
             batch = take (batchEnd - batchStart) (drop batchStart (childWallets wm));
             tasks = map (\<lambda>(batchIndex, wallet).
                            transfer_task env wm amountPerWallet currentNonce batchIndex wallet)
                         (enumerate 0 batch)
         in case first_rejection (map snd tasks) of
              Some e \<Rightarrow> (Inl e, [map fst tasks])
            | None \<Rightarrow>
                (let (r, later) = distribute_batches env wm amountPerWallet
                                    (currentNonce + length batch) (batchStart + batchSize)
                 in (r, map fst tasks # later)))
      else (Inr (), []))"
  by pat_completeness auto
termination
  by (relation "measure (\<lambda>(env, wm, amountPerWallet, currentNonce, batchStart).
                           length (childWallets wm) - batchStart)")
     (auto simp: batchSize_def)

declare distribute_batches.simps [simp del]

definition distributeFunds ::
  "distribute_env \<Rightarrow> wallet_manager \<Rightarrow> (error + unit) \<times> tx_request list list" where
  "distributeFunds env wm =
     (case d_getBalance env of
        Inl e \<Rightarrow> (Inl e, [])
      | Inr masterBalance \<Rightarrow>
          (case distribution_plan masterBalance (length (childWallets wm)) of
             Inl e \<Rightarrow> (Inl e, [])
           | Inr pl \<Rightarrow>
               (case d_getTransactionCount env of
                  Inl e \<Rightarrow> (Inl e, [])
                | Inr currentNonce \<Rightarrow>
                    distribute_batches env wm (plan_amountPerWallet pl) currentNonce 0)))"

section \<open>Fund collection (WalletManager.collectAllFunds)\<close>

text \<open>
  The answers of the ledger during one \<open>collectAllFunds\<close>. The task of the wallet at
  \<open>index\<close> makes each of its calls at most once, so its answers are indexed by \<open>index\<close>;
  \<open>c_finalBalance\<close> answers the query of the master balance after all tasks.
  \<open>c_getFeeData\<close> gives the field \<open>gasPrice\<close> of the fee data, a BigInt or \<open>null\<close>.
\<close>

record collect_env =
  c_getBalance :: "nat \<Rightarrow> error + wei"
  c_getFeeData :: "nat \<Rightarrow> error + wei option"
  c_getTransactionCount :: "nat \<Rightarrow> error + nat"
  c_sendTransaction :: "nat \<Rightarrow> tx_request \<Rightarrow> send_outcome"
  c_finalBalance :: "error + wei"

record collection =
  success :: bool
  amount :: wei

record summary =
  successfulCollections :: nat
  totalWallets :: nat
  totalCollected :: wei
  finalMasterBalance :: wei

text \<open>
  The callback of \<open>wallets.map\<close>: its result, and the requests it handed to
  \<open>sendTransaction\<close> (none or one). Its \<open>catch\<close> turns every error into a failed
  collection. \<open>gasPrice.gasPrice || BigInt(20000000000)\<close> falls back for \<open>null\<close> and \<open>0n\<close>.
\<close>

definition collect_failed :: collection where
  "collect_failed = \<lparr>success = False, amount = 0\<rparr>"

definition estimatedGasCost :: "wei option \<Rightarrow> wei" where
  "estimatedGasCost feeData_gasPrice =
     1000000 * (case feeData_gasPrice of
                  None \<Rightarrow> 20000000000
                | Some g \<Rightarrow> (if g = 0 then 20000000000 else g))"

definition collect_task ::
  "collect_env \<Rightarrow> wallet_manager \<Rightarrow> nat \<Rightarrow> wallet \<Rightarrow> collection \<times> tx_request list" where
  "collect_task env wm index wallet =
     (case c_getBalance env index of
        Inl e \<Rightarrow> (collect_failed, [])
      | Inr balance \<Rightarrow>
          if balance = 0 then (\<lparr>success = True, amount = 0\<rparr>, [])
          else
            (case c_getFeeData env index of
               Inl e \<Rightarrow> (collect_failed, [])
             | Inr feeData_gasPrice \<Rightarrow>
                 if balance \<le> estimatedGasCost feeData_gasPrice then
                   (\<lparr>success = True, amount = 0\<rparr>, [])
                 else
                   (let amountToSend = balance - estimatedGasCost feeData_gasPrice
                    in case c_getTransactionCount env index of
                         Inl e \<Rightarrow> (collect_failed, [])
                       | Inr walletNonce \<Rightarrow>
                           (let req = \<lparr>tx_from = address wallet,
                                       tx_to = address (masterWallet wm),
                                       tx_value = amountToSend, tx_nonce = walletNonce\<rparr>
                            in case c_sendTransaction env index req of
                                 SendThrows e \<Rightarrow> (collect_failed, [req])
                               | Broadcast h w \<Rightarrow>
                                   (case w of
                                      WaitThrows e \<Rightarrow> (collect_failed, [req])
                                    | Mined r \<Rightarrow>
                                        if status r = Some 1 then
                                          (\<lparr>success = True, amount = amountToSend\<rparr>, [req])
                                        else (collect_failed, [req]))))))"

text \<open>The \<open>forEach\<close> that counts the successful results and adds up their amounts.\<close>

definition aggregate :: "collection list \<Rightarrow> nat \<times> wei" where
  "aggregate results =
     fold (\<lambda>result (successfulCollections, totalCollected).
             if success result then (successfulCollections + 1, totalCollected + amount result)
             else (successfulCollections, totalCollected))
          results (0, 0)"

text \<open>
  \<open>collectAllFunds\<close>: what it returns or throws, and the requests of every task in pool
  order. The tasks never reject, so \<open>Promise.all\<close> waits for all of them; only the final
  balance query is outside a \<open>try\<close>.
\<close>

definition collectAllFunds ::
  "collect_env \<Rightarrow> wallet_manager \<Rightarrow> (error + summary) \<times> tx_request list list" where
  "collectAllFunds env wm =
     (let wallets = childWallets wm;
          tasks = map (\<lambda>(index, wallet). collect_task env wm index wallet) (enumerate 0 wallets);
          (successful, total) = aggregate (map fst tasks)
      in case c_finalBalance env of
           Inl e \<Rightarrow> (Inl e, map snd tasks)
         | Inr finalBalance \<Rightarrow>
             (Inr \<lparr>successfulCollections = successful, totalWallets = length wallets,
                   totalCollected = total, finalMasterBalance = finalBalance\<rparr>,
              map snd tasks))"

section \<open>The load tester (LoadTester)\<close>

record stats =
  totalTransactions :: nat
  successfulTransactions :: nat
  failedTransactions :: nat
  startTime :: "int option"
  endTime :: "int option"

record load_tester =
  walletManager :: wallet_manager
  config :: load_tester_config
  isRunning :: bool
  stats :: stats

definition new_LoadTester :: "wallet_manager \<Rightarrow> load_tester_config \<Rightarrow> load_tester" where
  "new_LoadTester wm cfg =
     \<lparr>walletManager = wm, config = cfg, isRunning = False,
      stats = \<lparr>totalTransactions = 0, successfulTransactions = 0, failedTransactions = 0,
               startTime = None, endTime = None\<rparr>\<rparr>"

definition stop :: "load_tester \<Rightarrow> load_tester" where
  "stop lt = lt\<lparr>isRunning := False\<rparr>"

text \<open>
  What one run of \<open>startLoadTest\<close> gets from outside. The loop of the wallet at
  \<open>walletIndex\<close> makes at most one \<open>sendTransaction\<close> and one resynchronising
  \<open>getTransactionCount\<close> in its iteration \<open>i\<close>, so their answers are indexed by the two.
  \<open>e_stopped walletIndex i\<close> tells whether \<open>stop()\<close> had been called (by a signal handler,
  at some suspension point) when that loop tests \<open>this.isRunning\<close> in iteration \<open>i\<close>.
\<close>

record dispatch_env =
  e_startNow :: int
  e_endNow :: int
  e_initialCount :: "nat \<Rightarrow> error + nat"
  e_sendTransaction :: "nat \<Rightarrow> nat \<Rightarrow> send_outcome"
  e_resyncCount :: "nat \<Rightarrow> nat \<Rightarrow> error + nat"
  e_stopped :: "nat \<Rightarrow> nat \<Rightarrow> bool"

text \<open>
  The calls a wallet loop makes, in its own order: the stagger sleep of
  \<open>(walletIndex * intervalMs) / wallets.length\<close> milliseconds (numerator and denominator,
  the quotient being a double), the interval sleep, a broadcast, and the resynchronising
  count query.
\<close>

datatype event =
    SleepStagger int nat
  | Sleep int
  | SendTransaction tx_request
  | GetTransactionCount address

text \<open>\<open>String.prototype.includes\<close>, for strings of bytes.\<close>

fun js_includes :: "string \<Rightarrow> string \<Rightarrow> bool" where
  "js_includes [] sub = (sub = [])"
| "js_includes (c # cs) sub = (take (length sub) (c # cs) = sub \<or> js_includes cs sub)"

definition count_failed :: "load_tester \<Rightarrow> load_tester" where
  "count_failed lt =
     lt\<lparr>stats := (stats lt)\<lparr>failedTransactions := failedTransactions (stats lt) + 1\<rparr>\<rparr>"

text \<open>
  The \<open>catch\<close> block of \<open>sendTransaction\<close>: it counts the failure, resynchronises the nonce
  when the message mentions a nonce or a replacement, and rethrows. A rejected
  \<open>updateNonce\<close> is thrown in place of the error.
\<close>

definition send_failed ::
  "dispatch_env \<Rightarrow> wallet \<Rightarrow> nat \<Rightarrow> nat \<Rightarrow> error \<Rightarrow> load_tester \<Rightarrow>
     error \<times> event list \<times> load_tester" where
  "send_failed env wallet walletIndex transactionIndex err lt =
     (let lt1 = count_failed lt
      in if js_includes (message err) ''nonce'' \<or> js_includes (message err) ''replacement'' then
           (case updateNonce (e_resyncCount env walletIndex transactionIndex)
                   (address wallet) (walletManager lt1) of
              Inl e \<Rightarrow> (e, [GetTransactionCount (address wallet)], lt1)
            | Inr (n, wm) \<Rightarrow>
                (err, [GetTransactionCount (address wallet)], lt1\<lparr>walletManager := wm\<rparr>))
         else (err, [], lt1))"

text \<open>
  \<open>sendTransaction\<close>: the error it throws if any, its calls, and the tester afterwards.
  \<open>ethers.parseEther('0.0001')\<close> is \<open>10^14\<close> wei.
\<close>

definition sendTransaction ::
  "dispatch_env \<Rightarrow> wallet \<Rightarrow> nat \<Rightarrow> nat \<Rightarrow> load_tester \<Rightarrow>
     error option \<times> event list \<times> load_tester" where
  "sendTransaction env wallet walletIndex transactionIndex lt =
     (let (nonce, wm) = getNextNonce (address wallet) (walletManager lt);
          lt1 = lt\<lparr>walletManager := wm\<rparr>;
          recipient = address (masterWallet wm);
          amount = 100000000000000;
          req = \<lparr>tx_from = address wallet, tx_to = recipient,
                 tx_value = amount, tx_nonce = nonce\<rparr>
      in case e_sendTransaction env walletIndex transactionIndex of
           SendThrows err \<Rightarrow>
             (case send_failed env wallet walletIndex transactionIndex err lt1 of
                (e, evs, lt2) \<Rightarrow> (Some e, SendTransaction req # evs, lt2))
         | Broadcast h w \<Rightarrow>
             (let lt2 = lt1\<lparr>stats := (stats lt1)
                            \<lparr>totalTransactions := totalTransactions (stats lt1) + 1\<rparr>\<rparr>
              in case w of
                   WaitThrows err \<Rightarrow>
                     (case send_failed env wallet walletIndex transactionIndex err lt2 of
                        (e, evs, lt3) \<Rightarrow> (Some e, SendTransaction req # evs, lt3))
                 | Mined r \<Rightarrow>
                     if status r = Some 1 then
                       (None, [SendTransaction req],
                        lt2\<lparr>stats := (stats lt2)
                              \<lparr>successfulTransactions := successfulTransactions (stats lt2) + 1\<rparr>\<rparr>)
                     else (None, [SendTransaction req], count_failed lt2)))"

text \<open>
  One pass through the body of the \<open>for\<close> loop of \<open>runWalletTransactions\<close>, after the test
  of \<open>isRunning\<close>: the \<open>try\<close> with the send and the interval sleep, and the \<open>catch\<close> that
  counts a failure.
\<close>

definition loop_body ::
  "dispatch_env \<Rightarrow> load_tester_config \<Rightarrow> wallet \<Rightarrow> nat \<Rightarrow> nat \<Rightarrow> load_tester \<Rightarrow>
     event list \<times> load_tester" where
  "loop_body env cfg wallet walletIndex i lt =
     (case sendTransaction env wallet walletIndex i lt of
        (None, evs, lt1) \<Rightarrow>
          (if int i < transactionsPerWallet cfg - 1 then evs @ [Sleep (intervalMs cfg)] else evs,
           lt1)
      | (Some err, evs, lt1) \<Rightarrow> (evs, count_failed lt1))"

text \<open>
  The \<open>for\<close> loop from iteration \<open>i\<close> on. The loop leaves at the first iteration that finds
  the running flag false. A \<open>stop()\<close> from outside is seen through \<open>e_stopped\<close> and is
  not written to the tester handed on, which the other loops share; \<open>startLoadTest\<close> clears
  the flag when all loops are done.
\<close>

function wallet_loop ::
  "dispatch_env \<Rightarrow> load_tester_config \<Rightarrow> wallet \<Rightarrow> nat \<Rightarrow> nat \<Rightarrow> load_tester \<Rightarrow>
     event list \<times> load_tester" where
  "wallet_loop env cfg wallet walletIndex i lt =
     (if int i < transactionsPerWallet cfg then
        (if \<not> isRunning (if e_stopped env walletIndex i then stop lt else lt) then ([], lt)
         else
           (let (evs, lt1) = loop_body env cfg wallet walletIndex i lt;
                (later, lt2) = wallet_loop env cfg wallet walletIndex (i + 1) lt1
            in (evs @ later, lt2)))
      else ([], lt))"
  by pat_completeness auto
termination
  by (relation "measure (\<lambda>(env, cfg, wallet, walletIndex, i, lt).
                           nat (transactionsPerWallet cfg - int i))") auto

declare wallet_loop.simps [simp del]

definition runWalletTransactions ::
  "dispatch_env \<Rightarrow> load_tester_config \<Rightarrow> wallet \<Rightarrow> nat \<Rightarrow> load_tester \<Rightarrow>
     event list \<times> load_tester" where
  "runWalletTransactions env cfg wallet walletIndex lt =
     (let staggerDelay = SleepStagger (int walletIndex * intervalMs cfg)
                           (length (childWallets (walletManager lt)));
          (evs, lt1) = wallet_loop env cfg wallet walletIndex 0 lt
      in (staggerDelay # evs, lt1))"

text \<open>
  \<open>initializeNonces\<close>: one \<open>updateNonce\<close> per wallet. \<open>Promise.all\<close> is rejected with a
  rejection (the first in array order here) while the other updates still land.
\<close>

fun initializeNonces ::
  "dispatch_env \<Rightarrow> (nat \<times> wallet) list \<Rightarrow> load_tester \<Rightarrow> error option \<times> load_tester" where
  "initializeNonces env [] lt = (None, lt)"
| "initializeNonces env ((index, wallet) # ws) lt =
     (case updateNonce (e_initialCount env index) (address wallet) (walletManager lt) of
        Inl e \<Rightarrow> (Some e, snd (initializeNonces env ws lt))
      | Inr (n, wm) \<Rightarrow> initializeNonces env ws (lt\<lparr>walletManager := wm\<rparr>))"

text \<open>
  The wallet loops run as interleaved tasks. They meet only in the statistics counters,
  which each of them only increments, in the nonce entry of their own address, and in the
  running flag, which they only read; so the model runs them one after the other in pool
  order, and the order of the events of different wallets carries no meaning.
\<close>

fun run_wallets ::
  "dispatch_env \<Rightarrow> load_tester_config \<Rightarrow> (nat \<times> wallet) list \<Rightarrow> load_tester \<Rightarrow>
     event list \<times> load_tester" where
  "run_wallets env cfg [] lt = ([], lt)"
| "run_wallets env cfg ((index, wallet) # ws) lt =
     (let (evs, lt1) = runWalletTransactions env cfg wallet index lt;
          (later, lt2) = run_wallets env cfg ws lt1
      in (evs @ later, lt2))"

text \<open>
  \<open>startLoadTest\<close>. A rejected \<open>initializeNonces\<close> is outside the \<open>try\<close>: it is thrown with
  the flag still set. \<open>endTime\<close> is written in the \<open>finally\<close> only.
\<close>

definition startLoadTest ::
  "dispatch_env \<Rightarrow> load_tester \<Rightarrow> (error + unit) \<times> event list \<times> load_tester" where
  "startLoadTest env lt =
     (if isRunning lt then (Inl (Error ''Load test is already running''), [], lt)
      else
        (let lt1 = lt\<lparr>isRunning := True,
                      stats := (stats lt)\<lparr>startTime := Some (e_startNow env),
                                          totalTransactions := 0,
                                          successfulTransactions := 0,
                                          failedTransactions := 0\<rparr>\<rparr>;
             wallets = childWallets (walletManager lt1)
         in case initializeNonces env (enumerate 0 wallets) lt1 of
              (Some e, lt2) \<Rightarrow> (Inl e, [], lt2)
            | (None, lt2) \<Rightarrow>
                (case run_wallets env (config lt2) (enumerate 0 wallets) lt2 of
                   (evs, lt3) \<Rightarrow>
                     (Inr (), evs,
                      lt3\<lparr>isRunning := False,
                          stats := (stats lt3)\<lparr>endTime := Some (e_endNow env)\<rparr>\<rparr>))))"

section \<open>The transfers a distribution is to make\<close>

text \<open>
  For stating what \<open>distributeFunds\<close> issues: the transfer to the child wallet at pool
  index \<open>i\<close>, with the nonce \<open>base + i\<close>; the transfers to the whole pool in pool order;
  and the cutting of a list into consecutive pieces of \<open>k\<close> elements, the last one
  possibly shorter.
\<close>

definition transfer_request :: "wallet_manager \<Rightarrow> wei \<Rightarrow> nat \<Rightarrow> nat \<Rightarrow> tx_request" where
  "transfer_request wm amountPerWallet base i =
     \<lparr>tx_from = address (masterWallet wm), tx_to = address (childWallets wm ! i),
      tx_value = amountPerWallet, tx_nonce = base + i\<rparr>"

definition planned_transfers :: "wallet_manager \<Rightarrow> wei \<Rightarrow> nat \<Rightarrow> tx_request list" where
  "planned_transfers wm amountPerWallet base =
     map (transfer_request wm amountPerWallet base) [0..<length (childWallets wm)]"

function chunks :: "nat \<Rightarrow> 'a list \<Rightarrow> 'a list list" where
  "chunks k xs = (if k = 0 \<or> xs = [] then [] else take k xs # chunks k (drop k xs))"
  by pat_completeness auto
termination
  by (relation "measure (\<lambda>(k, xs). length xs)") auto

declare chunks.simps [simp del]

text \<open>
  Issuing given batches one after the other, each only after every transfer of the one
  before has settled without a rejection; \<open>distribute_batches\<close> is shown to do this with
  the pieces of twenty of the planned transfers.
\<close>

fun issue ::
  "(tx_request \<Rightarrow> send_outcome) \<Rightarrow> tx_request list list \<Rightarrow>
     (error + unit) \<times> tx_request list list" where
  "issue send [] = (Inr (), [])"
| "issue send (c # cs) =
     (case first_rejection (map (\<lambda>req. settled (send req)) c) of
        Some e \<Rightarrow> (Inl e, [c])
      | None \<Rightarrow> (let (r, later) = issue send cs in (r, c # later)))"

declare issue.simps(2) [simp del]

section \<open>A sample run\<close>

text \<open>
  A tester with one child wallet and three transactions per wallet, and a ledger that
  rejects the first broadcast with a nonce error, reports a pending count of 4 at the
  resynchronisation and mines every other transaction. No \<open>stop()\<close> arrives.
\<close>

definition sample_manager :: wallet_manager where
  "sample_manager =
     \<lparr>masterWallet = Wallet ''m'', childWallets = [Wallet ''a''], nonces = Map.empty\<rparr>"

definition sample_config :: load_tester_config where
  "sample_config =
     \<lparr>transactionsPerWallet = 3, intervalMs = 1000, gasLimit = 21000, gasPrice = ''20'',
      transactionAmount = ''0.0001''\<rparr>"

definition sample_dispatch :: dispatch_env where
  "sample_dispatch =
     \<lparr>e_startNow = 0, e_endNow = 5000,
      e_initialCount = (\<lambda>index. Inr 0),
      e_sendTransaction = (\<lambda>index i. if i = 0 then SendThrows (Error ''nonce too low'')
                                        else Broadcast ''0xabc'' (Mined (Receipt (Some 1) 7))),
      e_resyncCount = (\<lambda>index i. Inr 4),
      e_stopped = (\<lambda>index i. False)\<rparr>"

definition sample_request :: "nat \<Rightarrow> tx_request" where
  "sample_request n =
     \<lparr>tx_from = ''a'', tx_to = ''m'', tx_value = 100000000000000, tx_nonce = n\<rparr>"

text \<open>
  For the distribution: a ledger that reports the balance \<open>b\<close> and a pending count of 7
  for the master wallet, rejects the transfer with the nonce \<open>bad\<close> if there is one, and
  mines every other transfer; and a manager with the first \<open>n\<close> sample wallets.
\<close>

definition sample_ledger :: "wei \<Rightarrow> nat option \<Rightarrow> distribute_env" where
  "sample_ledger b bad =
     \<lparr>d_getBalance = Inr b, d_getTransactionCount = Inr 7,
      d_sendTransaction = (\<lambda>req. if Some (tx_nonce req) = bad
                                  then SendThrows (Error ''insufficient funds for gas'')
                                  else Broadcast ''0xabc'' (Mined (Receipt (Some 1) 7)))\<rparr>"

definition sample_pool :: "nat \<Rightarrow> wallet_manager" where
  "sample_pool n =
     \<lparr>masterWallet = Wallet ''m'', childWallets = map sample_createRandom [0..<n],
      nonces = Map.empty\<rparr>"

text \<open>
  For the collection: four child wallets; the first is empty, the second holds less than
  the estimated gas cost, the third holds 1 ETH and its transfer is mined, and the balance
  query of the fourth is rejected. The ledger reports no gas price.
\<close>

definition sample_collect :: collect_env where
  "sample_collect =
     \<lparr>c_getBalance = (\<lambda>index. if index = 0 then Inr 0
                               else if index = 1 then Inr 5
                               else if index = 2 then Inr 1000000000000000000
                               else Inl (Error ''timeout'')),
      c_getFeeData = (\<lambda>index. Inr None),
      c_getTransactionCount = (\<lambda>index. Inr 3),
      c_sendTransaction = (\<lambda>index req. Broadcast ''0xdef'' (Mined (Receipt (Some 1) 9))),
      c_finalBalance = Inr 980000000000000000\<rparr>"

section \<open>Properties of the nonce allocator\<close>

lemma getNextNonce_value:
  "fst (getNextNonce a wm) = (case nonces wm a of None \<Rightarrow> 0 | Some n \<Rightarrow> n)"
  by (simp add: getNextNonce_def Let_def split: option.splits)

lemma getNextNonce_nonces:
  "nonces (snd (getNextNonce a wm)) =
     (nonces wm)(a \<mapsto> Suc (case nonces wm a of None \<Rightarrow> 0 | Some n \<Rightarrow> n))"
  by (simp add: getNextNonce_def Let_def split: option.splits)

lemma returned_for_allocate_all:
  "nonces wm a = Some n \<Longrightarrow>
   returned_for a (fst (allocate_all as wm)) = map (\<lambda>k. n + k) [0..<count_list as a]"
proof (induction as arbitrary: wm n)
  case Nil
  then show ?case by (simp add: returned_for_def)
next
  case (Cons b bs)
  obtain v wm' where g: "getNextNonce b wm = (v, wm')" by (cases "getNextNonce b wm")
  have v: "v = (case nonces wm b of None \<Rightarrow> 0 | Some n \<Rightarrow> n)"
    using getNextNonce_value [of b wm] g by simp
  have m: "nonces wm' = (nonces wm)(b \<mapsto> Suc v)"
    using getNextNonce_nonces [of b wm] g v by simp
  obtain rs wm'' where r: "allocate_all bs wm' = (rs, wm'')" by (cases "allocate_all bs wm'")
  have unfold: "fst (allocate_all (b # bs) wm) = (b, v) # rs"
    by (simp add: g r)
  show ?case
  proof (cases "b = a")
    case True
    then have "nonces wm' a = Some (Suc n)" using m v Cons.prems by simp
    then have "returned_for a rs = map (\<lambda>k. Suc n + k) [0..<count_list bs a]"
      using Cons.IH [of wm' "Suc n"] r by simp
    moreover have "v = n" using v True Cons.prems by simp
    moreover have "map (\<lambda>k. n + k) [0..<Suc (count_list bs a)] =
                   n # map (\<lambda>k. Suc n + k) [0..<count_list bs a]"
      by (simp add: upt_rec [of 0] map_Suc_upt [symmetric] del: upt_Suc)
    ultimately show ?thesis
      using True unfold by (simp add: returned_for_def del: upt_Suc)
  next
    case False
    then have "nonces wm' a = Some n" using m Cons.prems by simp
    then have "returned_for a rs = map (\<lambda>k. n + k) [0..<count_list bs a]"
      using Cons.IH [of wm' n] r by simp
    then show ?thesis
      using False unfold by (simp add: returned_for_def)
  qed
qed

lemma nonces_allocate_all:
  "nonces wm a = Some n \<Longrightarrow>
   nonces (snd (allocate_all as wm)) a = Some (n + count_list as a)"
proof (induction as arbitrary: wm n)
  case Nil
  then show ?case by simp
next
  case (Cons b bs)
  obtain v wm' where g: "getNextNonce b wm = (v, wm')" by (cases "getNextNonce b wm")
  have m: "nonces wm' = (nonces wm)(b \<mapsto> Suc (case nonces wm b of None \<Rightarrow> 0 | Some n \<Rightarrow> n))"
    using getNextNonce_nonces [of b wm] g by simp
  obtain rs wm'' where r: "allocate_all bs wm' = (rs, wm'')" by (cases "allocate_all bs wm'")
  have unfold: "snd (allocate_all (b # bs) wm) = wm''"
    by (simp add: g r)
  show ?case
  proof (cases "b = a")
    case True
    then have "nonces wm' a = Some (Suc n)" using m Cons.prems by simp
    then have "nonces wm'' a = Some (Suc n + count_list bs a)"
      using Cons.IH [of wm' "Suc n"] r by simp
    then show ?thesis using True unfold by simp
  next
    case False
    then have "nonces wm' a = Some n" using m Cons.prems by simp
    then have "nonces wm'' a = Some (n + count_list bs a)"
      using Cons.IH [of wm' n] r by simp
    then show ?thesis using False unfold by simp
  qed
qed

lemma distinct_map_add_upt: "distinct (map (\<lambda>k. (n::nat) + k) [0..<c])"
  by (simp add: distinct_map inj_on_def)

text \<open>
  C1. After \<open>updateNonce\<close> for an address, the cached next nonce of the address is the
  pending count the ledger reported. From then on, in any run of \<open>getNextNonce\<close> calls
  (for this and other addresses, in any order, with no further \<open>updateNonce\<close>), the calls
  for the address return the reported count, then one more each time; no value is returned
  twice, and the cached nonce ends at the reported count plus the number of calls, so it
  never decreases. \<open>getNextNonce\<close> takes no answer of the ledger.
\<close>

theorem c1_nonce_sequence:
  assumes "updateNonce getTransactionCount a wm = Inr (r, wm')"
  shows "getTransactionCount = Inr r
       \<and> nonces wm' a = Some r
       \<and> fst (getNextNonce a wm') = r
       \<and> fst (getNextNonce a (snd (getNextNonce a wm'))) = r + 1
       \<and> returned_for a (fst (allocate_all as wm')) = map (\<lambda>k. r + k) [0..<count_list as a]
       \<and> distinct (returned_for a (fst (allocate_all as wm')))
       \<and> nonces (snd (allocate_all as wm')) a = Some (r + count_list as a)"
proof -
  from assms have q: "getTransactionCount = Inr r"
    and w: "wm' = wm\<lparr>nonces := (nonces wm)(a \<mapsto> r)\<rparr>"
    by (auto simp: updateNonce_def split: sum.splits)
  from w have n: "nonces wm' a = Some r" by simp
  have first: "fst (getNextNonce a wm') = r"
    using n by (simp add: getNextNonce_value)
  have "nonces (snd (getNextNonce a wm')) a = Some (Suc r)"
    using n by (simp add: getNextNonce_nonces)
  then have second: "fst (getNextNonce a (snd (getNextNonce a wm'))) = r + 1"
    by (simp add: getNextNonce_value)
  have run: "returned_for a (fst (allocate_all as wm')) = map (\<lambda>k. r + k) [0..<count_list as a]"
    using n by (rule returned_for_allocate_all)
  have dist: "distinct (returned_for a (fst (allocate_all as wm')))"
    unfolding run by (rule distinct_map_add_upt)
  have final: "nonces (snd (allocate_all as wm')) a = Some (r + count_list as a)"
    using n by (rule nonces_allocate_all)
  from q n first second run dist final show ?thesis by simp
qed

theorem c1_nonce_sequence_witness:
  "updateNonce (Inr 5) ''w1'' (new_WalletManager (Wallet ''m''))
     = Inr (5, (new_WalletManager (Wallet ''m''))\<lparr>nonces := [''w1'' \<mapsto> 5]\<rparr>)
   \<and> returned_for ''w1''
        (fst (allocate_all [''w1'', ''w2'', ''w1'', ''w1'']
               ((new_WalletManager (Wallet ''m''))\<lparr>nonces := [''w1'' \<mapsto> 5]\<rparr>)))
     = [5, 6, 7]"
proof -
  have u: "updateNonce (Inr 5) ''w1'' (new_WalletManager (Wallet ''m''))
             = Inr (5, (new_WalletManager (Wallet ''m''))\<lparr>nonces := [''w1'' \<mapsto> 5]\<rparr>)"
    by (simp add: updateNonce_def new_WalletManager_def)
  have "map (\<lambda>k. 5 + k) [0..<count_list [''w1'', ''w2'', ''w1'', ''w1''] ''w1''] = [5, 6, (7::nat)]"
    by (simp add: upt_rec)
  with c1_nonce_sequence [OF u, of "[''w1'', ''w2'', ''w1'', ''w1'']"] u show ?thesis
    by simp
qed

section \<open>Properties of wallet creation\<close>

lemma childWallets_createWallets_loop:
  "childWallets (createWallets_loop createRandom n i wm)
     = childWallets wm @ map createRandom [i..<nat n]"
proof (induction createRandom n i wm rule: createWallets_loop.induct)
  case (1 createRandom numWallets i wm)
  show ?case
  proof (cases "int i < numWallets")
    case True
    then have "[i..<nat numWallets] = i # [i + 1..<nat numWallets]"
      by (simp add: upt_rec [of i])
    with True "1.IH" [OF True refl] show ?thesis
      by (subst createWallets_loop.simps) (simp add: Let_def)
  next
    case False
    then show ?thesis by (subst createWallets_loop.simps) simp
  qed
qed

lemma createWallets_loop_nothing:
  "n \<le> 0 \<Longrightarrow> createWallets_loop createRandom n 0 wm = wm"
  by (subst createWallets_loop.simps) simp

text \<open>
  C2, as the code has it. For \<open>n > 0\<close>, \<open>createWallets\<close> appends exactly \<open>n\<close> generated
  wallets to the pool, the \<open>i\<close>-th appended being the \<open>i\<close>-th generated, and returns the
  pool; from the empty pool of a new manager that is exactly \<open>n\<close> wallets, with pairwise
  distinct addresses when the generated ones are. For a count \<open>k \<le> 0\<close> it does not fail:
  it generates nothing and returns the pool as it was. The count is checked in
  \<open>validateConfig\<close>, which rejects \<open>numWallets \<le> 0\<close>.
\<close>

theorem c2_createWallets:
  "(0 < n \<longrightarrow>
      (case createWallets createRandom n wm of
         Inl e \<Rightarrow> False
       | Inr (pool, wm') \<Rightarrow>
           pool = childWallets wm @ map createRandom [0..<nat n]
           \<and> length pool = length (childWallets wm) + nat n
           \<and> childWallets wm' = pool
           \<and> (childWallets wm = []
                \<and> distinct (map (\<lambda>i. address (createRandom i)) [0..<nat n])
                \<longrightarrow> length pool = nat n \<and> distinct (map address pool))))
   \<and> (k \<le> 0 \<longrightarrow> createWallets createRandom k wm = Inr (childWallets wm, wm))
   \<and> (numWallets cfg \<le> 0 \<longrightarrow>
        ''NUM_WALLETS must be greater than 0'' \<in> set (config_errors cfg)
        \<and> validateConfig cfg =
            Inl (Error (''Configuration validation failed:'' @ [CHR 0x0A]
                        @ join (config_errors cfg) [CHR 0x0A])))"
proof (intro conjI impI)
  assume a: "0 < n"
  have "childWallets (createWallets_loop createRandom n 0 wm)
          = childWallets wm @ map createRandom [0..<nat n]"
    by (simp add: childWallets_createWallets_loop)
  then show "case createWallets createRandom n wm of
         Inl e \<Rightarrow> False
       | Inr (pool, wm') \<Rightarrow>
           pool = childWallets wm @ map createRandom [0..<nat n]
           \<and> length pool = length (childWallets wm) + nat n
           \<and> childWallets wm' = pool
           \<and> (childWallets wm = []
                \<and> distinct (map (\<lambda>i. address (createRandom i)) [0..<nat n])
                \<longrightarrow> length pool = nat n \<and> distinct (map address pool))"
    by (simp add: createWallets_def Let_def comp_def)
next
  assume "k \<le> 0"
  then show "createWallets createRandom k wm = Inr (childWallets wm, wm)"
    by (simp add: createWallets_def createWallets_loop_nothing)
next
  assume c: "numWallets cfg \<le> 0"
  then show "''NUM_WALLETS must be greater than 0'' \<in> set (config_errors cfg)"
    by (simp add: config_errors_def)
  then have "length (config_errors cfg) > 0" by (cases "config_errors cfg") auto
  then show "validateConfig cfg =
            Inl (Error (''Configuration validation failed:'' @ [CHR 0x0A]
                        @ join (config_errors cfg) [CHR 0x0A]))"
    by (simp add: validateConfig_def Let_def)
qed

theorem c2_createWallets_witness:
  "(case createWallets sample_createRandom 2 (new_WalletManager (Wallet ''m'')) of
      Inl e \<Rightarrow> False
    | Inr (pool, wm') \<Rightarrow>
        pool = [Wallet ''a'', Wallet ''aa''] \<and> length pool = 2 \<and> childWallets wm' = pool
        \<and> distinct (map address pool))
   \<and> createWallets sample_createRandom (- 1) (new_WalletManager (Wallet ''m''))
       = Inr ([], new_WalletManager (Wallet ''m''))
   \<and> validateConfig
        \<lparr>transactionsPerWallet = 100, intervalMs = 1000, gasLimit = 21000, gasPrice = ''20'',
         transactionAmount = ''0.0001'', privateKey = Some ''0x01'',
         rpcUrl = ''http://127.0.0.1:8545'', numWallets = - 1\<rparr>
       = Inl (Error (''Configuration validation failed:'' @ [CHR 0x0A]
                     @ ''NUM_WALLETS must be greater than 0''))"
proof -
  have u: "[0..<2::nat] = [0, 1]" by (simp add: upt_rec)
  show ?thesis
    using c2_createWallets [where n = 2 and createRandom = sample_createRandom
        and wm = "new_WalletManager (Wallet ''m'')" and k = "- 1" and cfg =
        "\<lparr>transactionsPerWallet = 100, intervalMs = 1000, gasLimit = 21000, gasPrice = ''20'',
          transactionAmount = ''0.0001'', privateKey = Some ''0x01'',
          rpcUrl = ''http://127.0.0.1:8545'', numWallets = - 1\<rparr>"]
    by (simp add: u new_WalletManager_def sample_createRandom_def config_errors_def
          split: sum.splits prod.splits)
qed

theorem c2_no_InvalidCount_counterexample:
  "createWallets sample_createRandom 0 (new_WalletManager (Wallet ''m''))
     = Inr ([], new_WalletManager (Wallet ''m''))
   \<and> createWallets sample_createRandom (- 3) (new_WalletManager (Wallet ''m''))
     = Inr ([], new_WalletManager (Wallet ''m''))"
  by (simp add: createWallets_def createWallets_loop_nothing new_WalletManager_def)

section \<open>Properties of the wallet loop\<close>

lemma wallet_loop_step:
  assumes "int i < transactionsPerWallet cfg" and "isRunning lt"
    and "\<not> e_stopped env walletIndex i"
  shows "wallet_loop env cfg wallet walletIndex i lt =
           (fst (loop_body env cfg wallet walletIndex i lt)
              @ fst (wallet_loop env cfg wallet walletIndex (i + 1)
                       (snd (loop_body env cfg wallet walletIndex i lt))),
            snd (wallet_loop env cfg wallet walletIndex (i + 1)
                   (snd (loop_body env cfg wallet walletIndex i lt))))"
  using assms
  by (subst wallet_loop.simps) (simp add: Let_def split: prod.splits)

lemma send_failed_no_sleep:
  "send_failed env wallet walletIndex i err lt = (e, evs, lt1) \<Longrightarrow> Sleep ms \<notin> set evs"
  by (auto simp: send_failed_def Let_def split: if_splits sum.splits prod.splits)

lemma sendTransaction_no_sleep:
  "sendTransaction env wallet walletIndex i lt = (r, evs, lt1) \<Longrightarrow> Sleep ms \<notin> set evs"
  by (auto simp: sendTransaction_def Let_def
        split: prod.splits send_outcome.splits wait_outcome.splits if_splits
        dest: send_failed_no_sleep)

lemma sendTransaction_returns:
  "sendTransaction env wallet walletIndex i lt = (None, evs, lt1) \<Longrightarrow>
     \<exists>h r. e_sendTransaction env walletIndex i = Broadcast h (Mined r)"
  by (auto simp: sendTransaction_def Let_def
        split: prod.splits send_outcome.splits wait_outcome.splits if_splits)

lemma isRunning_send_failed:
  "send_failed env wallet walletIndex i err lt = (e, evs, lt1) \<Longrightarrow> isRunning lt1 = isRunning lt"
  by (auto simp: send_failed_def count_failed_def Let_def split: if_splits sum.splits prod.splits)

lemma isRunning_sendTransaction:
  "sendTransaction env wallet walletIndex i lt = (r, evs, lt1) \<Longrightarrow> isRunning lt1 = isRunning lt"
  by (auto simp: sendTransaction_def count_failed_def Let_def
        split: prod.splits send_outcome.splits wait_outcome.splits if_splits
        dest: isRunning_send_failed)

lemma sendTransaction_first_event:
  "\<exists>req rest. fst (snd (sendTransaction env wallet walletIndex i lt)) = SendTransaction req # rest
     \<and> tx_nonce req = fst (getNextNonce (address wallet) (walletManager lt))"
  by (auto simp: sendTransaction_def Let_def
        split: prod.splits send_outcome.splits wait_outcome.splits if_splits)

lemma loop_body_first_event:
  "\<exists>req rest. fst (loop_body env cfg wallet walletIndex i lt) = SendTransaction req # rest
     \<and> tx_nonce req = fst (getNextNonce (address wallet) (walletManager lt))"
proof -
  obtain r evs lt1 where s: "sendTransaction env wallet walletIndex i lt = (r, evs, lt1)"
    by (cases "sendTransaction env wallet walletIndex i lt") auto
  obtain req rest where "evs = SendTransaction req # rest"
    and "tx_nonce req = fst (getNextNonce (address wallet) (walletManager lt))"
    using sendTransaction_first_event [of env wallet walletIndex i lt] s by auto
  then show ?thesis
    using s by (cases r) (auto simp: loop_body_def)
qed

lemma wallet_loop_first_event:
  assumes "int i < transactionsPerWallet cfg" and "isRunning lt"
    and "\<not> e_stopped env walletIndex i"
  shows "\<exists>req rest. fst (wallet_loop env cfg wallet walletIndex i lt) = SendTransaction req # rest
           \<and> tx_nonce req = fst (getNextNonce (address wallet) (walletManager lt))"
proof -
  obtain req rest where "fst (loop_body env cfg wallet walletIndex i lt) = SendTransaction req # rest"
    and "tx_nonce req = fst (getNextNonce (address wallet) (walletManager lt))"
    using loop_body_first_event by blast
  then show ?thesis
    by (simp add: wallet_loop_step [OF assms])
qed

text \<open>
  C10. In an iteration of the wallet loop that runs (the index is below the configured
  count and the running flag is seen set), a \<open>sendTransaction\<close> that throws makes no
  interval sleep: the calls of the iteration are followed at once by those of the next
  iteration, which starts with its broadcast when it runs. The interval sleep is made
  only in an iteration whose \<open>sendTransaction\<close> returned, which needs a broadcast that
  returned and a receipt, and only if a further iteration remains.
\<close>

theorem c10_sleep_only_after_returned_send:
  assumes "int i < transactionsPerWallet cfg" and "isRunning lt"
    and "\<not> e_stopped env walletIndex i"
  shows "case sendTransaction env wallet walletIndex i lt of
           (Some err, evs, lt1) \<Rightarrow>
             (\<forall>ms. Sleep ms \<notin> set evs)
             \<and> wallet_loop env cfg wallet walletIndex i lt =
                 (evs @ fst (wallet_loop env cfg wallet walletIndex (i + 1) (count_failed lt1)),
                  snd (wallet_loop env cfg wallet walletIndex (i + 1) (count_failed lt1)))
             \<and> (int (i + 1) < transactionsPerWallet cfg \<and> \<not> e_stopped env walletIndex (i + 1)
                  \<longrightarrow> (\<exists>req rest.
                         fst (wallet_loop env cfg wallet walletIndex (i + 1) (count_failed lt1))
                           = SendTransaction req # rest))
         | (None, evs, lt1) \<Rightarrow>
             (\<exists>h r. e_sendTransaction env walletIndex i = Broadcast h (Mined r))
             \<and> (\<forall>ms. Sleep ms \<notin> set evs)
             \<and> wallet_loop env cfg wallet walletIndex i lt =
                 (evs @ (if int i < transactionsPerWallet cfg - 1
                         then [Sleep (intervalMs cfg)] else [])
                      @ fst (wallet_loop env cfg wallet walletIndex (i + 1) lt1),
                  snd (wallet_loop env cfg wallet walletIndex (i + 1) lt1))"
proof -
  obtain r evs lt1 where s: "sendTransaction env wallet walletIndex i lt = (r, evs, lt1)"
    by (cases "sendTransaction env wallet walletIndex i lt") auto
  have nosleep: "\<forall>ms. Sleep ms \<notin> set evs"
    using sendTransaction_no_sleep [OF s] by blast
  have run: "isRunning lt1" using isRunning_sendTransaction [OF s] assms(2) by simp
  show ?thesis
  proof (cases r)
    case None
    have "\<exists>h r. e_sendTransaction env walletIndex i = Broadcast h (Mined r)"
      using sendTransaction_returns s None by blast
    moreover have "loop_body env cfg wallet walletIndex i lt =
        (evs @ (if int i < transactionsPerWallet cfg - 1 then [Sleep (intervalMs cfg)] else []),
         lt1)"
      using s None by (simp add: loop_body_def)
    ultimately show ?thesis
      using s None nosleep by (simp add: wallet_loop_step [OF assms])
  next
    case (Some err)
    have body: "loop_body env cfg wallet walletIndex i lt = (evs, count_failed lt1)"
      using s Some by (simp add: loop_body_def)
    have "isRunning (count_failed lt1)" using run by (simp add: count_failed_def)
    then have "int (i + 1) < transactionsPerWallet cfg \<and> \<not> e_stopped env walletIndex (i + 1)
        \<longrightarrow> (\<exists>req rest.
               fst (wallet_loop env cfg wallet walletIndex (i + 1) (count_failed lt1))
                 = SendTransaction req # rest)"
      using wallet_loop_first_event by blast
    then show ?thesis
      using s Some nosleep body by (simp add: wallet_loop_step [OF assms])
  qed
qed

lemmas sample_run_defs =
  loop_body_def sendTransaction_def send_failed_def getNextNonce_def updateNonce_def
  count_failed_def stop_def new_LoadTester_def sample_manager_def sample_config_def
  sample_dispatch_def sample_request_def Let_def

theorem c10_sleep_only_after_returned_send_witness:
  "int 0 < transactionsPerWallet sample_config
   \<and> isRunning ((new_LoadTester sample_manager sample_config)\<lparr>isRunning := True\<rparr>)
   \<and> \<not> e_stopped sample_dispatch 0 0
   \<and> fst (wallet_loop sample_dispatch sample_config (Wallet ''a'') 0 0
            ((new_LoadTester sample_manager sample_config)\<lparr>isRunning := True\<rparr>))
       = [SendTransaction (sample_request 0), GetTransactionCount ''a'',
          SendTransaction (sample_request 4), Sleep 1000,
          SendTransaction (sample_request 5)]"
proof -
  have h1: "int 0 < transactionsPerWallet sample_config"
    by (simp add: sample_config_def)
  have h2: "isRunning ((new_LoadTester sample_manager sample_config)\<lparr>isRunning := True\<rparr>)"
    by simp
  have h3: "\<not> e_stopped sample_dispatch 0 0"
    by (simp add: sample_dispatch_def)
  show ?thesis
    using h1 h3 c10_sleep_only_after_returned_send [OF h1 h2 h3, of "Wallet ''a''"]
    by (simp add: wallet_loop.simps sample_run_defs)
qed

text \<open>
  An iteration that runs, whose broadcast or wait for the receipt is rejected with an
  error whose message mentions a nonce or a replacement, the ledger answering the
  resynchronising query with the count \<open>n\<close>: the iteration queries the count, the cached
  nonce of the wallet becomes \<open>n\<close>, no success is counted, and the loop goes on with the
  next iteration, whose broadcast, when it runs, carries the nonce \<open>n\<close>. The handler of
  \<open>sendTransaction\<close> and the handler of the loop both increment \<open>failedTransactions\<close>, so
  the counter grows by two.
\<close>

lemma nonce_error_iteration:
  assumes "int i < transactionsPerWallet cfg" and "isRunning lt"
    and "\<not> e_stopped env walletIndex i"
    and "e_sendTransaction env walletIndex i = SendThrows err
         \<or> e_sendTransaction env walletIndex i = Broadcast h (WaitThrows err)"
    and "js_includes (message err) ''nonce'' \<or> js_includes (message err) ''replacement''"
    and "e_resyncCount env walletIndex i = Inr n"
  shows "\<exists>evs lt1.
           loop_body env cfg wallet walletIndex i lt = (evs, lt1)
         \<and> GetTransactionCount (address wallet) \<in> set evs
         \<and> nonces (walletManager lt1) (address wallet) = Some n
         \<and> failedTransactions (stats lt1) = failedTransactions (stats lt) + 2
         \<and> successfulTransactions (stats lt1) = successfulTransactions (stats lt)
         \<and> isRunning lt1
         \<and> wallet_loop env cfg wallet walletIndex i lt =
             (evs @ fst (wallet_loop env cfg wallet walletIndex (i + 1) lt1),
              snd (wallet_loop env cfg wallet walletIndex (i + 1) lt1))
         \<and> (int (i + 1) < transactionsPerWallet cfg \<and> \<not> e_stopped env walletIndex (i + 1)
              \<longrightarrow> (\<exists>req rest.
                     fst (wallet_loop env cfg wallet walletIndex (i + 1) lt1)
                       = SendTransaction req # rest
                     \<and> tx_nonce req = n))"
proof -
  obtain evs lt1 where b: "loop_body env cfg wallet walletIndex i lt = (evs, lt1)"
    by (cases "loop_body env cfg wallet walletIndex i lt") auto
  have facts: "GetTransactionCount (address wallet) \<in> set evs
      \<and> nonces (walletManager lt1) (address wallet) = Some n
      \<and> failedTransactions (stats lt1) = failedTransactions (stats lt) + 2
      \<and> successfulTransactions (stats lt1) = successfulTransactions (stats lt)
      \<and> isRunning lt1"
    using assms(2,4,5,6) b
    by (auto simp: loop_body_def sendTransaction_def send_failed_def updateNonce_def
          getNextNonce_def count_failed_def Let_def
          split: prod.splits option.splits if_splits)
  then have next_nonce: "fst (getNextNonce (address wallet) (walletManager lt1)) = n"
    by (simp add: getNextNonce_value)
  have step: "wallet_loop env cfg wallet walletIndex i lt =
             (evs @ fst (wallet_loop env cfg wallet walletIndex (i + 1) lt1),
              snd (wallet_loop env cfg wallet walletIndex (i + 1) lt1))"
    using wallet_loop_step [OF assms(1,2,3), of wallet] b by simp
  have "int (i + 1) < transactionsPerWallet cfg \<and> \<not> e_stopped env walletIndex (i + 1)
      \<longrightarrow> (\<exists>req rest.
             fst (wallet_loop env cfg wallet walletIndex (i + 1) lt1) = SendTransaction req # rest
             \<and> tx_nonce req = n)"
    using wallet_loop_first_event [of "i + 1" cfg lt1 env walletIndex wallet] facts next_nonce
    by auto
  with b facts step show ?thesis by blast
qed

text \<open>
  C5. In the sample run the first broadcast is rejected with \<open>nonce too low\<close>. The
  iteration queries the pending count and caches the answer 4, and the loop goes on: the
  next two broadcasts carry the nonces 4 and 5. But the one failed transaction is counted
  twice in \<open>failedTransactions\<close>, by the \<open>catch\<close> of \<open>sendTransaction\<close> and again by the
  \<open>catch\<close> of the loop: after the iteration the counter is 2, and after the three sends
  of the loop the statistics show 2 transactions, 2 successes and 2 failures. A mined
  transaction whose receipt has status 0 is counted as one failure.
\<close>

theorem c5_failure_counted_twice:
  "e_sendTransaction sample_dispatch 0 0 = SendThrows (Error ''nonce too low'')
   \<and> (case loop_body sample_dispatch sample_config (Wallet ''a'') 0 0
              ((new_LoadTester sample_manager sample_config)\<lparr>isRunning := True\<rparr>) of
         (evs, lt1) \<Rightarrow>
           (evs, nonces (walletManager lt1) ''a'', totalTransactions (stats lt1),
            successfulTransactions (stats lt1), failedTransactions (stats lt1)))
       = ([SendTransaction (sample_request 0), GetTransactionCount ''a''], Some 4, 0, 0, 2)
   \<and> (case wallet_loop sample_dispatch sample_config (Wallet ''a'') 0 0
              ((new_LoadTester sample_manager sample_config)\<lparr>isRunning := True\<rparr>) of
         (evs, lt1) \<Rightarrow>
           (evs, totalTransactions (stats lt1), successfulTransactions (stats lt1),
            failedTransactions (stats lt1)))
       = ([SendTransaction (sample_request 0), GetTransactionCount ''a'',
           SendTransaction (sample_request 4), Sleep 1000,
           SendTransaction (sample_request 5)], 2, 2, 2)
   \<and> (case loop_body
              (sample_dispatch\<lparr>e_sendTransaction :=
                 (\<lambda>index i. Broadcast ''0xabc'' (Mined (Receipt (Some 0) 7)))\<rparr>)
              sample_config (Wallet ''a'') 0 0
              ((new_LoadTester sample_manager sample_config)\<lparr>isRunning := True\<rparr>) of
         (evs, lt1) \<Rightarrow>
           (evs, totalTransactions (stats lt1), successfulTransactions (stats lt1),
            failedTransactions (stats lt1)))
       = ([SendTransaction (sample_request 0), Sleep 1000], 1, 0, 1)"
  by (simp add: wallet_loop.simps sample_run_defs)

text \<open>
  C3, as the code has it. \<open>stop()\<close> on a tester that was never started changes nothing:
  the statistics stay all zero and the flag stays false. It has no effect on a later
  \<open>startLoadTest\<close>, which sets the flag and runs as it would have without the \<open>stop()\<close>.
\<close>

theorem c3_stop_before_start:
  "stats (stop (new_LoadTester wm cfg)) =
     \<lparr>totalTransactions = 0, successfulTransactions = 0, failedTransactions = 0,
      startTime = None, endTime = None\<rparr>
   \<and> isRunning (stop (new_LoadTester wm cfg)) = False
   \<and> stop (new_LoadTester wm cfg) = new_LoadTester wm cfg
   \<and> startLoadTest env (stop (new_LoadTester wm cfg)) = startLoadTest env (new_LoadTester wm cfg)"
proof -
  have same: "stop (new_LoadTester wm cfg) = new_LoadTester wm cfg"
    by (simp add: stop_def new_LoadTester_def)
  then show ?thesis by (simp add: new_LoadTester_def)
qed

theorem c3_start_after_stop_sends_counterexample:
  "(case startLoadTest sample_dispatch (stop (new_LoadTester sample_manager sample_config)) of
      (r, evs, lt) \<Rightarrow> (r, evs, totalTransactions (stats lt)))
   = (Inr (),
      [SleepStagger 0 1, SendTransaction (sample_request 0), GetTransactionCount ''a'',
       SendTransaction (sample_request 4), Sleep 1000, SendTransaction (sample_request 5)],
      2)"
  by (simp add: startLoadTest_def runWalletTransactions_def enumerate_eq_zip upt_rec
        wallet_loop.simps sample_run_defs)

section \<open>Properties of the distribution plan\<close>

lemma ndigits_small: "n < 10 \<Longrightarrow> ndigits n = 1"
  by (simp add: ndigits.simps)

lemma gasReserve_from_parts:
  assumes "w \<noteq> 0" and "times_001 w = (m, e)"
    and "shortest_decimal m e (Suc 0) = Some (s, p)"
  shows "gasReserve w = parseEther_decimal s p"
  using assms by (simp add: gasReserve_def)

lemmas decimal_defs = candidate_def reads_back_def decimal_exponent_def pow_frac_def Let_def

lemma times_001_10: "times_001 10 = (7205759403792794, - 56)"
proof -
  have "bitlen (double_001 * 10) = 56"
    by (simp add: bitlen.simps double_001_def)
  then show ?thesis
    by (simp add: times_001_def Let_def) (simp add: double_001_def)
qed

lemma gasReserve_10: "gasReserve 10 = Inr 100000000000000000"
proof -
  have "shortest_decimal 7205759403792794 (- 56) (Suc 0) = Some (1, - 1)"
    by (simp add: shortest_decimal.simps decimal_defs ndigits_small)
  then have "gasReserve 10 = parseEther_decimal 1 (- 1)"
    using times_001_10 by (simp add: gasReserve_from_parts)
  then show ?thesis
    by (simp add: parseEther_decimal_def ndigits_small)
qed

lemma times_001_21: "times_001 21 = (7566047373982433, - 55)"
proof -
  have "bitlen (double_001 * 21) = 57"
    by (simp add: bitlen.simps double_001_def)
  then show ?thesis
    by (simp add: times_001_def Let_def) (simp add: double_001_def)
qed

lemma gasReserve_21: "gasReserve 21 = Inr 210000000000000000"
proof -
  have "shortest_decimal 7566047373982433 (- 55) (Suc 0) = Some (21, - 2)"
    by (simp add: shortest_decimal.simps decimal_defs ndigits_small)
  then have "gasReserve 21 = parseEther_decimal 21 (- 2)"
    using times_001_21 by (simp add: gasReserve_from_parts)
  then show ?thesis
    by (simp add: parseEther_decimal_def ndigits.simps)
qed

lemma times_001_35: "times_001 35 = (6305039478318695, - 54)"
proof -
  have "bitlen (double_001 * 35) = 58"
    by (simp add: bitlen.simps double_001_def)
  then show ?thesis
    by (simp add: times_001_def Let_def) (simp add: double_001_def)
qed

lemma gasReserve_35: "gasReserve 35 = Inr 350000000000000030"
proof -
  have "shortest_decimal 6305039478318695 (- 54) (Suc 0) = Some (35000000000000003, - 17)"
    by (simp add: shortest_decimal.simps decimal_defs ndigits_small)
  then have "gasReserve 35 = parseEther_decimal 35000000000000003 (- 17)"
    using times_001_35 by (simp add: gasReserve_from_parts)
  then show ?thesis
    by (simp add: parseEther_decimal_def ndigits.simps)
qed

lemma parseEther_decimal_nonneg: "parseEther_decimal s p = Inr r \<Longrightarrow> 0 \<le> r"
  by (auto simp: parseEther_decimal_def Let_def split: if_splits)

lemma gasReserve_nonneg: "gasReserve w = Inr r \<Longrightarrow> 0 \<le> r"
  by (auto simp: gasReserve_def split: if_splits prod.splits option.splits
        dest: parseEther_decimal_nonneg)

lemma bigint_div_pos: "0 < a \<Longrightarrow> 0 < b \<Longrightarrow> bigint_div a b = Inr (a div b)"
  by (simp add: bigint_div_def)

lemma distribution_plan_value:
  assumes "0 < w" and "gasReserve w = Inr r" and "r < b"
  shows "distribution_plan b w =
           Inr \<lparr>plan_gasReserve = r, plan_availableBalance = b - r,
                plan_amountPerWallet = (b - r) div int w\<rparr>"
proof -
  have "0 \<le> r" using assms(2) by (rule gasReserve_nonneg)
  then have "b \<noteq> 0" and "0 < b - r" using assms(3) by auto
  moreover have "bigint_div (b - r) (int w) = Inr ((b - r) div int w)"
    using \<open>0 < b - r\<close> assms(1) by (simp add: bigint_div_pos)
  ultimately show ?thesis
    using assms(2) by (simp add: distribution_plan_def Let_def)
qed

text \<open>
  The plan in terms of the reserve: whenever the reserve for \<open>W\<close> wallets is a value \<open>r\<close>
  below the master balance \<open>B\<close>, the available balance is \<open>B - r\<close> and the amount per
  wallet is \<open>(B - r) div W\<close>, the remainder (less than \<open>W\<close> wei) being dropped. For
  \<open>W = 10\<close> the reserve is 0.1 ETH, and with \<open>B\<close> = 10 ETH the amount per wallet is
  0.99 ETH.
\<close>

lemma distribution_plan_arithmetic:
  "(0 < W \<and> gasReserve W = Inr r \<and> r < B \<longrightarrow>
      distribution_plan B W =
        Inr \<lparr>plan_gasReserve = r, plan_availableBalance = B - r,
             plan_amountPerWallet = (B - r) div int W\<rparr>
      \<and> (B - r) div int W * int W \<le> B - r
      \<and> B - r < ((B - r) div int W + 1) * int W)
   \<and> gasReserve 10 = Inr (10 ^ 17)
   \<and> distribution_plan (10 * 10 ^ 18) 10 =
       Inr \<lparr>plan_gasReserve = 10 ^ 17, plan_availableBalance = 99 * 10 ^ 17,
            plan_amountPerWallet = 99 * 10 ^ 16\<rparr>"
proof (intro conjI impI)
  assume a: "0 < W \<and> gasReserve W = Inr r \<and> r < B"
  then show "distribution_plan B W =
        Inr \<lparr>plan_gasReserve = r, plan_availableBalance = B - r,
             plan_amountPerWallet = (B - r) div int W\<rparr>"
    by (simp add: distribution_plan_value)
  have w: "0 < int W" using a by simp
  show "(B - r) div int W * int W \<le> B - r"
    using w by (metis div_mult_mod_eq le_add_same_cancel1 pos_mod_sign)
  have "(B - r) mod int W < int W" using w by (rule pos_mod_bound)
  then show "B - r < ((B - r) div int W + 1) * int W"
    by (metis add.commute distrib_right div_mult_mod_eq add_less_cancel_left mult_1)
next
  show g: "gasReserve 10 = Inr (10 ^ 17)"
    by (simp add: gasReserve_10)
  have "distribution_plan (10 * 10 ^ 18) 10 =
        Inr \<lparr>plan_gasReserve = 10 ^ 17, plan_availableBalance = 10 * 10 ^ 18 - 10 ^ 17,
             plan_amountPerWallet = (10 * 10 ^ 18 - 10 ^ 17) div int 10\<rparr>"
    using g by (intro distribution_plan_value) simp_all
  then show "distribution_plan (10 * 10 ^ 18) 10 =
       Inr \<lparr>plan_gasReserve = 10 ^ 17, plan_availableBalance = 99 * 10 ^ 17,
            plan_amountPerWallet = 99 * 10 ^ 16\<rparr>"
    by simp
qed

text \<open>
  C4. For 35 child wallets the reserve the code computes is not 0.01 * 35 ETH: the double
  product \<open>0.01 * 35\<close> prints as \<open>0.35000000000000003\<close>, which \<open>parseEther\<close> reads as
  350000000000000030 wei, 30 wei above 0.35 ETH. With a master balance of 10 ETH the
  available balance is then 9649999999999999970 wei, and the amount per wallet
  275714285714285713 wei, one wei below the integer share of 9.65 ETH.
\<close>

theorem c4_reserve_not_exact:
  "gasReserve 35 = Inr 350000000000000030
   \<and> gasReserve 35 \<noteq> Inr (35 * 10 ^ 16)
   \<and> distribution_plan (10 * 10 ^ 18) 35 =
       Inr \<lparr>plan_gasReserve = 350000000000000030,
            plan_availableBalance = 9649999999999999970,
            plan_amountPerWallet = 275714285714285713\<rparr>
   \<and> (10 * 10 ^ 18 - 35 * 10 ^ 16) div 35 = (275714285714285714::int)"
proof -
  have "distribution_plan (10 * 10 ^ 18) 35 =
        Inr \<lparr>plan_gasReserve = 350000000000000030,
             plan_availableBalance = 10 * 10 ^ 18 - 350000000000000030,
             plan_amountPerWallet = (10 * 10 ^ 18 - 350000000000000030) div int 35\<rparr>"
    using gasReserve_35 by (intro distribution_plan_value) simp_all
  then show ?thesis
    using gasReserve_35 by simp
qed

section \<open>Properties of the distribution\<close>

lemma distributeFunds_no_plan:
  "d_getBalance env = Inr b \<Longrightarrow> distribution_plan b (length (childWallets wm)) = Inl e \<Longrightarrow>
   distributeFunds env wm = (Inl e, [])"
  by (simp add: distributeFunds_def)

text \<open>
  C6. When the balance of the master wallet is zero, and when the balance is not above
  the gas reserve (so that the available balance is zero or negative), \<open>distributeFunds\<close>
  throws one of its two errors of insufficient funds and hands no request to
  \<open>sendTransaction\<close>.
\<close>

theorem c6_insufficient_funds:
  "(d_getBalance env = Inr 0 \<longrightarrow>
      distributeFunds env wm = (Inl (Error ''Master wallet has no funds to distribute''), []))
   \<and> (d_getBalance env = Inr B \<and> gasReserve (length (childWallets wm)) = Inr r \<and> B - r \<le> 0
        \<longrightarrow> (\<exists>e. distributeFunds env wm = (Inl e, [])
                 \<and> (e = Error ''Master wallet has no funds to distribute''
                    \<or> e = Error ''Insufficient funds after reserving gas'')))"
proof (intro conjI impI)
  assume "d_getBalance env = Inr 0"
  then show "distributeFunds env wm
               = (Inl (Error ''Master wallet has no funds to distribute''), [])"
    by (simp add: distributeFunds_no_plan distribution_plan_def)
next
  assume a: "d_getBalance env = Inr B \<and> gasReserve (length (childWallets wm)) = Inr r
             \<and> B - r \<le> 0"
  then have "distribution_plan B (length (childWallets wm))
               = Inl (if B = 0 then Error ''Master wallet has no funds to distribute''
                      else Error ''Insufficient funds after reserving gas'')"
    by (simp add: distribution_plan_def Let_def)
  with a have "distributeFunds env wm
               = (Inl (if B = 0 then Error ''Master wallet has no funds to distribute''
                       else Error ''Insufficient funds after reserving gas''), [])"
    by (simp add: distributeFunds_no_plan)
  then show "\<exists>e. distributeFunds env wm = (Inl e, [])
                 \<and> (e = Error ''Master wallet has no funds to distribute''
                    \<or> e = Error ''Insufficient funds after reserving gas'')"
    by auto
qed

theorem c6_insufficient_funds_witness:
  "d_getBalance (sample_ledger 0 None) = Inr 0
   \<and> distributeFunds (sample_ledger 0 None) (sample_pool 10)
       = (Inl (Error ''Master wallet has no funds to distribute''), [])
   \<and> d_getBalance (sample_ledger 100000000000000000 None) = Inr 100000000000000000
   \<and> gasReserve (length (childWallets (sample_pool 10))) = Inr 100000000000000000
   \<and> distributeFunds (sample_ledger 100000000000000000 None) (sample_pool 10)
       = (Inl (Error ''Insufficient funds after reserving gas''), [])"
proof -
  have g: "gasReserve (length (childWallets (sample_pool 10))) = Inr 100000000000000000"
    by (simp add: sample_pool_def gasReserve_10)
  have b0: "d_getBalance (sample_ledger 0 None) = Inr 0"
    by (simp add: sample_ledger_def)
  have b1: "d_getBalance (sample_ledger 100000000000000000 None) = Inr 100000000000000000"
    by (simp add: sample_ledger_def)
  have "distribution_plan 100000000000000000 (length (childWallets (sample_pool 10)))
          = Inl (Error ''Insufficient funds after reserving gas'')"
    using g by (simp add: distribution_plan_def)
  then have d1: "distributeFunds (sample_ledger 100000000000000000 None) (sample_pool 10)
                   = (Inl (Error ''Insufficient funds after reserving gas''), [])"
    using b1 by (simp add: distributeFunds_no_plan)
  show ?thesis
    using c6_insufficient_funds [of "sample_ledger 0 None" "sample_pool 10"] b0
      c6_insufficient_funds [of "sample_ledger 100000000000000000 None" "sample_pool 10"
        100000000000000000 100000000000000000] b1 g d1
    by simp
qed

lemma chunks_Nil [simp]: "chunks k [] = []"
  by (simp add: chunks.simps)

lemma chunks_unfold: "0 < k \<Longrightarrow> xs \<noteq> [] \<Longrightarrow> chunks k xs = take k xs # chunks k (drop k xs)"
  by (subst chunks.simps) simp

lemma concat_chunks: "0 < k \<Longrightarrow> concat (chunks k xs) = xs"
proof (induction k xs rule: chunks.induct)
  case (1 k xs)
  show ?case
  proof (cases "xs = []")
    case True
    then show ?thesis by simp
  next
    case False
    with 1 show ?thesis by (simp add: chunks_unfold)
  qed
qed

lemma chunks_lengths:
  "0 < k \<Longrightarrow> c \<in> set (chunks k xs) \<Longrightarrow> 0 < length c \<and> length c \<le> k"
proof (induction k xs rule: chunks.induct)
  case (1 k xs)
  show ?case
  proof (cases "xs = []")
    case True
    with 1 show ?thesis by simp
  next
    case False
    with 1 show ?thesis by (auto simp: chunks_unfold)
  qed
qed

lemma chunks_full:
  "0 < k \<Longrightarrow> Suc j < length (chunks k xs) \<Longrightarrow> length (chunks k xs ! j) = k"
proof (induction k xs arbitrary: j rule: chunks.induct)
  case (1 k xs)
  show ?case
  proof (cases "xs = []")
    case True
    with 1 show ?thesis by simp
  next
    case False
    have u: "chunks k xs = take k xs # chunks k (drop k xs)"
      using False "1.prems" by (simp add: chunks_unfold)
    show ?thesis
    proof (cases j)
      case 0
      have "chunks k (drop k xs) \<noteq> []" using "1.prems" u 0 by auto
      then have "drop k xs \<noteq> []" by auto
      then have "k < length xs" by simp
      then show ?thesis using u 0 by simp
    next
      case (Suc j')
      then have "Suc j' < length (chunks k (drop k xs))" using "1.prems" u by simp
      then have "length (chunks k (drop k xs) ! j') = k"
        using "1.IH" [of j'] False "1.prems" by simp
      then show ?thesis using u Suc by simp
    qed
  qed
qed

lemma concat_take_prefix:
  "concat (take k xss) = take (length (concat (take k xss))) (concat xss)"
proof -
  have "concat xss = concat (take k xss) @ concat (drop k xss)"
    by (metis append_take_drop_id concat_append)
  then show ?thesis by simp
qed

lemma first_rejection_None:
  "first_rejection rs = None \<longleftrightarrow> (\<forall>r \<in> set rs. r = None)"
  by (induction rs rule: first_rejection.induct) auto

lemma first_rejection_Some:
  "first_rejection rs = Some e \<Longrightarrow> Some e \<in> set rs"
  by (induction rs rule: first_rejection.induct) auto

lemma settled_None:
  "settled out = None \<longleftrightarrow> (\<exists>h r. out = Broadcast h (Mined r))"
  by (auto simp: settled_def split: send_outcome.splits wait_outcome.splits)


lemma issue_Cons_ok:
  "first_rejection (map (\<lambda>req. settled (send req)) c) = None \<Longrightarrow>
   issue send (c # cs) = (fst (issue send cs), c # snd (issue send cs))"
  by (simp add: issue.simps(2) split: prod.splits)

lemma issue_Cons_rejected:
  "first_rejection (map (\<lambda>req. settled (send req)) c) = Some e \<Longrightarrow>
   issue send (c # cs) = (Inl e, [c])"
  by (simp add: issue.simps(2))

lemma issue_prefix:
  "snd (issue send cs) = take (length (snd (issue send cs))) cs"
proof (induction cs)
  case Nil
  then show ?case by simp
next
  case (Cons c cs)
  show ?case
  proof (cases "first_rejection (map (\<lambda>req. settled (send req)) c)")
    case None
    then show ?thesis using Cons.IH by (simp add: issue_Cons_ok)
  next
    case (Some e)
    then show ?thesis by (simp add: issue_Cons_rejected)
  qed
qed

lemma issue_barrier:
  "Suc j < length (snd (issue send cs)) \<Longrightarrow> req \<in> set (cs ! j) \<Longrightarrow>
   settled (send req) = None"
proof (induction cs arbitrary: j)
  case Nil
  then show ?case by simp
next
  case (Cons c cs)
  show ?case
  proof (cases "first_rejection (map (\<lambda>req. settled (send req)) c)")
    case None
    then have i: "issue send (c # cs) = (fst (issue send cs), c # snd (issue send cs))"
      by (rule issue_Cons_ok)
    show ?thesis
    proof (cases j)
      case 0
      then have "req \<in> set c" using Cons.prems by simp
      then show ?thesis using None by (auto simp: first_rejection_None)
    next
      case (Suc j')
      then show ?thesis using Cons.prems Cons.IH [of j'] i by simp
    qed
  next
    case (Some e)
    then have "issue send (c # cs) = (Inl e, [c])" by (rule issue_Cons_rejected)
    then show ?thesis using Cons.prems by simp
  qed
qed

lemma issue_success:
  "fst (issue send cs) = Inr () \<Longrightarrow>
   snd (issue send cs) = cs \<and> (\<forall>c \<in> set cs. \<forall>req \<in> set c. settled (send req) = None)"
proof (induction cs)
  case Nil
  then show ?case by simp
next
  case (Cons c cs)
  show ?case
  proof (cases "first_rejection (map (\<lambda>req. settled (send req)) c)")
    case None
    then have i: "issue send (c # cs) = (fst (issue send cs), c # snd (issue send cs))"
      by (rule issue_Cons_ok)
    then have "fst (issue send cs) = Inr ()" using Cons.prems by simp
    then show ?thesis using Cons.IH i None
      by (auto simp: first_rejection_None)
  next
    case (Some e)
    then have "issue send (c # cs) = (Inl e, [c])" by (rule issue_Cons_rejected)
    then show ?thesis using Cons.prems by simp
  qed
qed

lemma issue_failure:
  "fst (issue send cs) = Inl e \<Longrightarrow>
   snd (issue send cs) \<noteq> [] \<and> (\<exists>req \<in> set (last (snd (issue send cs))). settled (send req) = Some e)"
proof (induction cs)
  case Nil
  then show ?case by simp
next
  case (Cons c cs)
  show ?case
  proof (cases "first_rejection (map (\<lambda>req. settled (send req)) c)")
    case None
    then have i: "issue send (c # cs) = (fst (issue send cs), c # snd (issue send cs))"
      by (rule issue_Cons_ok)
    then have "fst (issue send cs) = Inl e" using Cons.prems by simp
    then show ?thesis using Cons.IH i by simp
  next
    case (Some e')
    then have i: "issue send (c # cs) = (Inl e', [c])" by (rule issue_Cons_rejected)
    then have "e' = e" using Cons.prems by simp
    then show ?thesis using i first_rejection_Some [OF Some] by (auto)
  qed
qed

lemma issue_stops:
  assumes "j < length (snd (issue send cs))" and "req \<in> set (cs ! j)"
    and "settled (send req) \<noteq> None"
  shows "(\<exists>e. fst (issue send cs) = Inl e) \<and> snd (issue send cs) = take (Suc j) cs"
proof -
  have "\<not> Suc j < length (snd (issue send cs))"
    using issue_barrier [of j send cs req] assms(2,3) by blast
  then have k: "length (snd (issue send cs)) = Suc j" using assms(1) by simp
  have len: "j < length cs"
    using assms(1) issue_prefix [of send cs]
    by (metis length_take min_less_iff_conj)
  have "fst (issue send cs) \<noteq> Inr ()"
  proof
    assume "fst (issue send cs) = Inr ()"
    then have "\<forall>c \<in> set cs. \<forall>req \<in> set c. settled (send req) = None"
      using issue_success by blast
    moreover have "cs ! j \<in> set cs" using len by simp
    ultimately have "settled (send req) = None" using assms(2) by auto
    then show False using assms(3) by simp
  qed
  then have "\<exists>e. fst (issue send cs) = Inl e"
    by (cases "fst (issue send cs)") auto
  then show ?thesis using issue_prefix [of send cs] k by simp
qed

lemma transfer_tasks_requests:
  assumes "e \<le> length (childWallets wm)"
  shows "map (\<lambda>(batchIndex, wallet). transfer_task env wm a (base + start) batchIndex wallet)
           (enumerate 0 (take (e - start) (drop start (childWallets wm))))
       = map (\<lambda>req. (req, settled (d_sendTransaction env req)))
           (map (transfer_request wm a base) [start..<e])"
proof (rule nth_equalityI)
  show "length (map (\<lambda>(batchIndex, wallet). transfer_task env wm a (base + start) batchIndex wallet)
           (enumerate 0 (take (e - start) (drop start (childWallets wm)))))
      = length (map (\<lambda>req. (req, settled (d_sendTransaction env req)))
           (map (transfer_request wm a base) [start..<e]))"
    using assms by simp
next
  fix i
  assume "i < length (map (\<lambda>(batchIndex, wallet). transfer_task env wm a (base + start) batchIndex wallet)
           (enumerate 0 (take (e - start) (drop start (childWallets wm)))))"
  then have i: "i < e - start" using assms by simp
  then have "enumerate 0 (take (e - start) (drop start (childWallets wm))) ! i
             = (i, childWallets wm ! (start + i))"
    using assms by (simp add: nth_enumerate_eq)
  then show "map (\<lambda>(batchIndex, wallet). transfer_task env wm a (base + start) batchIndex wallet)
           (enumerate 0 (take (e - start) (drop start (childWallets wm)))) ! i
       = map (\<lambda>req. (req, settled (d_sendTransaction env req)))
           (map (transfer_request wm a base) [start..<e]) ! i"
    using i assms by (simp add: transfer_task_def transfer_request_def Let_def add.assoc)
qed

lemma distribute_batches_issue:
  "cur = base + start \<Longrightarrow>
   distribute_batches env wm a cur start
     = issue (d_sendTransaction env)
         (chunks batchSize (map (transfer_request wm a base) [start..<length (childWallets wm)]))"
proof (induction env wm a cur start arbitrary: base rule: distribute_batches.induct)
  case (1 env wm a cur start)
  let ?n = "length (childWallets wm)"
  let ?tr = "transfer_request wm a base"
  show ?case
  proof (cases "start < ?n")
    case False
    then show ?thesis
      by (subst distribute_batches.simps) simp
  next
    case True
    let ?e = "min (start + batchSize) ?n"
    let ?batch = "take (?e - start) (drop start (childWallets wm))"
    let ?tasks = "map (\<lambda>(batchIndex, wallet). transfer_task env wm a cur batchIndex wallet)
                    (enumerate 0 ?batch)"
    have tasks: "?tasks = map (\<lambda>req. (req, settled (d_sendTransaction env req))) (map ?tr [start..<?e])"
      using transfer_tasks_requests [of ?e wm env a base start] "1.prems" by simp
    have fsts: "map fst ?tasks = map ?tr [start..<?e]"
      unfolding tasks by (simp add: comp_def)
    have snds: "map snd ?tasks = map (\<lambda>req. settled (d_sendTransaction env req)) (map ?tr [start..<?e])"
      unfolding tasks by (simp add: comp_def)
    have bs: "0 < batchSize" by (simp add: batchSize_def)
    have tk: "take batchSize (map ?tr [start..<?n]) = map ?tr [start..<?e]"
      by (simp add: take_map min_def)
    have dr: "drop batchSize (map ?tr [start..<?n]) = map ?tr [start + batchSize..<?n]"
      by (simp add: drop_map add.commute)
    have ch: "chunks batchSize (map ?tr [start..<?n])
                = map ?tr [start..<?e] # chunks batchSize (map ?tr [start + batchSize..<?n])"
      using True bs by (subst chunks.simps) (auto simp: tk dr)
    have len: "length ?batch = ?e - start" by simp
    show ?thesis
    proof (cases "first_rejection (map snd ?tasks)")
      case (Some err)
      then have "distribute_batches env wm a cur start = (Inl err, [map fst ?tasks])"
        using True by (subst distribute_batches.simps) (simp add: Let_def)
      moreover have "issue (d_sendTransaction env) (chunks batchSize (map ?tr [start..<?n]))
                     = (Inl err, [map ?tr [start..<?e]])"
        using Some unfolding ch snds by (rule issue_Cons_rejected)
      ultimately show ?thesis using fsts by simp
    next
      case None
      have ih: "distribute_batches env wm a (cur + length ?batch) (start + batchSize)
                  = issue (d_sendTransaction env)
                      (chunks batchSize (map ?tr [start + batchSize..<?n]))"
      proof (cases "start + batchSize \<le> ?n")
        case le: True
        then have "cur + length ?batch = base + (start + batchSize)"
          using "1.prems" by (auto simp: min_def)
        then show ?thesis
          using "1.IH" [OF True refl refl refl None] by simp
      next
        case gt: False
        then have d: "distribute_batches env wm a (cur + length ?batch) (start + batchSize)
                     = (Inr (), [])"
          by (subst distribute_batches.simps) simp
        have "map ?tr [start + batchSize..<?n] = []" using gt by simp
        then have "issue (d_sendTransaction env)
                      (chunks batchSize (map ?tr [start + batchSize..<?n])) = (Inr (), [])"
          by (simp only: chunks_Nil issue.simps)
        with d show ?thesis by (simp only:)
      qed
      have "distribute_batches env wm a cur start
              = (fst (distribute_batches env wm a (cur + length ?batch) (start + batchSize)),
                 map fst ?tasks
                   # snd (distribute_batches env wm a (cur + length ?batch) (start + batchSize)))"
        using True None
        by (subst distribute_batches.simps) (simp add: Let_def split: prod.splits)
      moreover have "issue (d_sendTransaction env) (chunks batchSize (map ?tr [start..<?n]))
          = (fst (issue (d_sendTransaction env) (chunks batchSize (map ?tr [start + batchSize..<?n]))),
             map ?tr [start..<?e]
               # snd (issue (d_sendTransaction env) (chunks batchSize (map ?tr [start + batchSize..<?n]))))"
        using None unfolding ch snds by (rule issue_Cons_ok)
      ultimately show ?thesis using ih fsts by simp
    qed
  qed
qed

lemma issue_all_ok:
  "(\<forall>c \<in> set cs. \<forall>req \<in> set c. settled (send req) = None) \<Longrightarrow> issue send cs = (Inr (), cs)"
proof (induction cs)
  case Nil
  then show ?case by simp
next
  case (Cons c cs)
  have "first_rejection (map (\<lambda>req. settled (send req)) c) = None"
    using Cons.prems by (simp add: first_rejection_None)
  then show ?case using Cons by (simp add: issue_Cons_ok)
qed

lemma issue_nonempty: "cs \<noteq> [] \<Longrightarrow> 0 < length (snd (issue send cs))"
  by (cases cs) (auto simp: issue.simps(2) split: option.splits prod.splits)

lemma distributeFunds_issue:
  assumes "d_getBalance env = Inr B"
    and "distribution_plan B (length (childWallets wm)) = Inr pl"
    and "d_getTransactionCount env = Inr base"
  shows "distributeFunds env wm
           = issue (d_sendTransaction env)
               (chunks batchSize (planned_transfers wm (plan_amountPerWallet pl) base))"
  using assms distribute_batches_issue [of base base 0 env wm "plan_amountPerWallet pl"]
  by (simp add: distributeFunds_def planned_transfers_def)

lemma plan21: "distribution_plan 1000000000000000000 21 =
       Inr \<lparr>plan_gasReserve = 210000000000000000, plan_availableBalance = 790000000000000000,
            plan_amountPerWallet = 37619047619047619\<rparr>"
  using distribution_plan_value [of 21 210000000000000000 1000000000000000000] gasReserve_21
  by simp

lemma len21: "length (childWallets (sample_pool 21)) = 21"
  by (simp add: sample_pool_def)

lemma ch21: "chunks batchSize (planned_transfers (sample_pool 21) 37619047619047619 7)
   = [take 20 (planned_transfers (sample_pool 21) 37619047619047619 7),
      drop 20 (planned_transfers (sample_pool 21) 37619047619047619 7)]"
  apply (subst chunks.simps)
  apply (simp add: batchSize_def planned_transfers_def len21)
  apply (subst chunks.simps)
  apply (simp add: batchSize_def planned_transfers_def len21)
  done


lemma sample_ledger_settled:
  "settled (d_sendTransaction (sample_ledger b bad) req)
     = (if Some (tx_nonce req) = bad then Some (Error ''insufficient funds for gas'') else None)"
  by (simp add: sample_ledger_def settled_def)

text \<open>
  C7. Once the plan stands and the pending count \<open>base\<close> of the master wallet is read (the
  only count query of the distribution), the transfers are those planned: one per child
  wallet in pool order, the one for pool index \<open>i\<close> with the nonce \<open>base + i\<close>. They are
  handed to \<open>sendTransaction\<close> in batches, which are the consecutive pieces of twenty of
  the planned list (the last one possibly shorter), issued in order, so that the requests
  issued are, in order, the first of the planned ones; the requests of a batch are all
  handed over before the outcome of any is looked at. A batch is issued
  only when every transfer of the batch before it has been broadcast and has a receipt;
  and when \<open>distributeFunds\<close> returns, every batch was issued.
\<close>

theorem c7_batches_of_twenty:
  fixes wm :: wallet_manager and pl :: plan and base :: nat and planned
  defines "planned \<equiv> planned_transfers wm (plan_amountPerWallet pl) base"
  assumes "d_getBalance env = Inr B"
    and "distribution_plan B (length (childWallets wm)) = Inr pl"
    and "d_getTransactionCount env = Inr base"
  shows "batchSize = 20
       \<and> length planned = length (childWallets wm)
       \<and> (\<forall>i < length (childWallets wm).
            planned ! i = \<lparr>tx_from = address (masterWallet wm),
                           tx_to = address (childWallets wm ! i),
                           tx_value = plan_amountPerWallet pl, tx_nonce = base + i\<rparr>)
       \<and> concat (chunks batchSize planned) = planned
       \<and> (\<forall>c \<in> set (chunks batchSize planned). 0 < length c \<and> length c \<le> batchSize)
       \<and> (\<forall>j. Suc j < length (chunks batchSize planned)
                \<longrightarrow> length (chunks batchSize planned ! j) = batchSize)
       \<and> snd (distributeFunds env wm)
           = take (length (snd (distributeFunds env wm))) (chunks batchSize planned)
       \<and> concat (snd (distributeFunds env wm))
           = take (length (concat (snd (distributeFunds env wm)))) planned
       \<and> (\<forall>j req. Suc j < length (snd (distributeFunds env wm))
                    \<and> req \<in> set (chunks batchSize planned ! j)
                \<longrightarrow> (\<exists>h r. d_sendTransaction env req = Broadcast h (Mined r)))
       \<and> (fst (distributeFunds env wm) = Inr ()
            \<longrightarrow> snd (distributeFunds env wm) = chunks batchSize planned)"
proof -
  have d: "distributeFunds env wm = issue (d_sendTransaction env) (chunks batchSize planned)"
    unfolding planned_def using assms(2,3,4) by (rule distributeFunds_issue)
  have bs: "0 < batchSize" by (simp add: batchSize_def)
  have 1: "batchSize = 20" by (simp add: batchSize_def)
  have 2: "length planned = length (childWallets wm)"
    by (simp add: planned_def planned_transfers_def)
  have 3: "\<forall>i < length (childWallets wm).
            planned ! i = \<lparr>tx_from = address (masterWallet wm),
                           tx_to = address (childWallets wm ! i),
                           tx_value = plan_amountPerWallet pl, tx_nonce = base + i\<rparr>"
    by (simp add: planned_def planned_transfers_def transfer_request_def)
  have 4: "concat (chunks batchSize planned) = planned"
    using bs by (rule concat_chunks)
  have 5: "\<forall>c \<in> set (chunks batchSize planned). 0 < length c \<and> length c \<le> batchSize"
    using bs chunks_lengths by blast
  have 6: "\<forall>j. Suc j < length (chunks batchSize planned)
                \<longrightarrow> length (chunks batchSize planned ! j) = batchSize"
    using bs chunks_full by blast
  have 7: "snd (distributeFunds env wm)
           = take (length (snd (distributeFunds env wm))) (chunks batchSize planned)"
    unfolding d by (rule issue_prefix)
  have pre: "concat (snd (distributeFunds env wm))
           = take (length (concat (snd (distributeFunds env wm)))) planned"
    using concat_take_prefix [of "length (snd (distributeFunds env wm))"
        "chunks batchSize planned"] 7 4 by simp
  have 8: "\<forall>j req. Suc j < length (snd (distributeFunds env wm))
                    \<and> req \<in> set (chunks batchSize planned ! j)
                \<longrightarrow> (\<exists>h r. d_sendTransaction env req = Broadcast h (Mined r))"
  proof (intro allI impI, elim conjE)
    fix j req
    assume "Suc j < length (snd (distributeFunds env wm))"
      and "req \<in> set (chunks batchSize planned ! j)"
    then have "settled (d_sendTransaction env req) = None"
      unfolding d by (rule issue_barrier)
    then show "\<exists>h r. d_sendTransaction env req = Broadcast h (Mined r)"
      by (simp add: settled_None)
  qed
  have 9: "fst (distributeFunds env wm) = Inr ()
            \<longrightarrow> snd (distributeFunds env wm) = chunks batchSize planned"
    unfolding d using issue_success by blast
  from 1 2 3 4 5 6 7 pre 8 9 show ?thesis by blast
qed

theorem c7_batches_of_twenty_witness:
  "d_getBalance (sample_ledger 1000000000000000000 None) = Inr 1000000000000000000
   \<and> distribution_plan 1000000000000000000 (length (childWallets (sample_pool 21)))
       = Inr \<lparr>plan_gasReserve = 210000000000000000,
              plan_availableBalance = 790000000000000000,
              plan_amountPerWallet = 37619047619047619\<rparr>
   \<and> d_getTransactionCount (sample_ledger 1000000000000000000 None) = Inr 7
   \<and> distributeFunds (sample_ledger 1000000000000000000 None) (sample_pool 21)
       = (Inr (), [take 20 (planned_transfers (sample_pool 21) 37619047619047619 7),
                   drop 20 (planned_transfers (sample_pool 21) 37619047619047619 7)])
   \<and> length (planned_transfers (sample_pool 21) 37619047619047619 7) = 21
   \<and> planned_transfers (sample_pool 21) 37619047619047619 7 ! 20
       = \<lparr>tx_from = ''m'', tx_to = ''aaaaaaaaaaaaaaaaaaaaa'',
          tx_value = 37619047619047619, tx_nonce = 27\<rparr>"
proof -
  let ?env = "sample_ledger 1000000000000000000 None"
  let ?plan = "\<lparr>plan_gasReserve = 210000000000000000,
                 plan_availableBalance = 790000000000000000,
                 plan_amountPerWallet = 37619047619047619\<rparr>"
  have h1: "d_getBalance ?env = Inr 1000000000000000000"
    by (simp add: sample_ledger_def)
  have h2: "distribution_plan 1000000000000000000 (length (childWallets (sample_pool 21)))
              = Inr ?plan"
    by (simp add: len21 plan21)
  have h3: "d_getTransactionCount ?env = Inr 7"
    by (simp add: sample_ledger_def)
  have ok: "fst (distributeFunds ?env (sample_pool 21)) = Inr ()"
    using distributeFunds_issue [OF h1 h2 h3]
    by (simp add: issue_all_ok sample_ledger_settled)
  have last: "childWallets (sample_pool 21) ! 20 = Wallet ''aaaaaaaaaaaaaaaaaaaaa''"
    by (simp add: sample_pool_def sample_createRandom_def numeral_eq_Suc)
  show ?thesis
    using c7_batches_of_twenty [OF h1 h2 h3] h1 h2 h3 ok ch21 last
    by (simp add: prod_eq_iff len21 sample_pool_def)
qed

text \<open>
  C8. When a batch was issued and the broadcast of one of its transfers, or the wait for
  its receipt, is rejected, \<open>distributeFunds\<close> throws (an error of a rejected transfer of
  that batch) and the batches issued are those up to and including this one: no later
  batch is issued. The failing batch was handed to \<open>sendTransaction\<close> in full, and
  nothing but planned transfers is ever sent, so nothing is taken back.
\<close>

theorem c8_failed_batch_stops:
  fixes wm :: wallet_manager and pl :: plan and base :: nat and planned
  defines "planned \<equiv> planned_transfers wm (plan_amountPerWallet pl) base"
  assumes "d_getBalance env = Inr B"
    and "distribution_plan B (length (childWallets wm)) = Inr pl"
    and "d_getTransactionCount env = Inr base"
    and "j < length (snd (distributeFunds env wm))"
    and "req \<in> set (chunks batchSize planned ! j)"
    and "d_sendTransaction env req = SendThrows err
         \<or> d_sendTransaction env req = Broadcast h (WaitThrows err)"
  shows "(\<exists>e bad. fst (distributeFunds env wm) = Inl e
                 \<and> bad \<in> set (chunks batchSize planned ! j)
                 \<and> (d_sendTransaction env bad = SendThrows e
                    \<or> (\<exists>h'. d_sendTransaction env bad = Broadcast h' (WaitThrows e))))
       \<and> snd (distributeFunds env wm) = take (Suc j) (chunks batchSize planned)
       \<and> length (snd (distributeFunds env wm)) = Suc j
       \<and> snd (distributeFunds env wm) ! j = chunks batchSize planned ! j"
proof -
  let ?send = "d_sendTransaction env"
  let ?cs = "chunks batchSize planned"
  have d: "distributeFunds env wm = issue ?send ?cs"
    unfolding planned_def using assms(2,3,4) by (rule distributeFunds_issue)
  have rej: "settled (?send req) \<noteq> None"
    using assms(7) by (auto simp: settled_def)
  have j: "j < length (snd (issue ?send ?cs))" using assms(5) d by simp
  from issue_stops [OF j assms(6) rej]
  obtain e where e: "fst (issue ?send ?cs) = Inl e"
    and tk: "snd (issue ?send ?cs) = take (Suc j) ?cs" by blast
  have len: "length (snd (issue ?send ?cs)) = Suc j"
    using j tk by (metis Suc_leI length_take min.absorb2 nat_le_linear take_all)
  have nth: "snd (issue ?send ?cs) ! j = ?cs ! j"
    using tk by simp
  from issue_failure [OF e]
  obtain bad where "bad \<in> set (last (snd (issue ?send ?cs)))"
    and b: "settled (?send bad) = Some e" by blast
  moreover have "last (snd (issue ?send ?cs)) = ?cs ! j"
    using len nth by (metis diff_Suc_1 last_conv_nth length_0_conv nat.distinct(1))
  ultimately have mem: "bad \<in> set (?cs ! j)" by simp
  have "?send bad = SendThrows e \<or> (\<exists>h'. ?send bad = Broadcast h' (WaitThrows e))"
    using b by (auto simp: settled_def split: send_outcome.splits wait_outcome.splits)
  with e mem tk len nth show ?thesis unfolding d by blast
qed

theorem c8_failed_batch_stops_witness:
  "d_getBalance (sample_ledger 1000000000000000000 (Some 10)) = Inr 1000000000000000000
   \<and> d_getTransactionCount (sample_ledger 1000000000000000000 (Some 10)) = Inr 7
   \<and> 0 < length (snd (distributeFunds (sample_ledger 1000000000000000000 (Some 10))
                         (sample_pool 21)))
   \<and> transfer_request (sample_pool 21) 37619047619047619 7 3
       \<in> set (chunks batchSize (planned_transfers (sample_pool 21) 37619047619047619 7) ! 0)
   \<and> d_sendTransaction (sample_ledger 1000000000000000000 (Some 10))
        (transfer_request (sample_pool 21) 37619047619047619 7 3)
       = SendThrows (Error ''insufficient funds for gas'')
   \<and> length (chunks batchSize (planned_transfers (sample_pool 21) 37619047619047619 7)) = 2
   \<and> snd (distributeFunds (sample_ledger 1000000000000000000 (Some 10)) (sample_pool 21))
       = [take 20 (planned_transfers (sample_pool 21) 37619047619047619 7)]
   \<and> (\<exists>e. fst (distributeFunds (sample_ledger 1000000000000000000 (Some 10)) (sample_pool 21))
             = Inl e)"
proof -
  let ?env = "sample_ledger 1000000000000000000 (Some 10)"
  let ?plan = "\<lparr>plan_gasReserve = 210000000000000000,
                 plan_availableBalance = 790000000000000000,
                 plan_amountPerWallet = 37619047619047619\<rparr>"
  let ?planned = "planned_transfers (sample_pool 21) 37619047619047619 7"
  have h1: "d_getBalance ?env = Inr 1000000000000000000"
    by (simp add: sample_ledger_def)
  have h2: "distribution_plan 1000000000000000000 (length (childWallets (sample_pool 21)))
              = Inr ?plan"
    by (simp add: len21 plan21)
  have h3: "d_getTransactionCount ?env = Inr 7"
    by (simp add: sample_ledger_def)
  have "chunks batchSize ?planned \<noteq> []"
    using ch21 by simp
  then have "0 < length (snd (issue (d_sendTransaction ?env) (chunks batchSize ?planned)))"
    by (rule issue_nonempty)
  then have h4: "0 < length (snd (distributeFunds ?env (sample_pool 21)))"
    using distributeFunds_issue [OF h1 h2 h3] by simp
  have "transfer_request (sample_pool 21) 37619047619047619 7 3 = ?planned ! 3"
    by (simp add: planned_transfers_def len21)
  moreover have "?planned ! 3 \<in> set (take 20 ?planned)"
    by (simp add: in_set_conv_nth planned_transfers_def len21) (rule exI [of _ 3], simp)
  ultimately have h5: "transfer_request (sample_pool 21) 37619047619047619 7 3
                         \<in> set (chunks batchSize ?planned ! 0)"
    using ch21 by simp
  have h6: "d_sendTransaction ?env (transfer_request (sample_pool 21) 37619047619047619 7 3)
              = SendThrows (Error ''insufficient funds for gas'')
            \<or> d_sendTransaction ?env (transfer_request (sample_pool 21) 37619047619047619 7 3)
              = Broadcast [] (WaitThrows (Error ''insufficient funds for gas''))"
    by (simp add: sample_ledger_def transfer_request_def)
  show ?thesis
    using c8_failed_batch_stops [OF h1 h2 h3 h4, of "transfer_request (sample_pool 21) 37619047619047619 7 3"
        "Error ''insufficient funds for gas''" "[]"] h1 h2 h3 h4 h5 h6 ch21
    by (auto simp: sample_ledger_def transfer_request_def)
qed

section \<open>Properties of the collection\<close>

lemma aggregate_fold:
  "fold (\<lambda>result (successfulCollections, totalCollected).
           if success result then (successfulCollections + 1, totalCollected + amount result)
           else (successfulCollections, totalCollected))
        rs (a, b)
     = (a + length (filter success rs), b + sum_list (map amount (filter success rs)))"
  by (induction rs arbitrary: a b) auto

lemma aggregate_eq:
  "aggregate rs = (length (filter success rs), sum_list (map amount (filter success rs)))"
  by (simp add: aggregate_def aggregate_fold)

lemma collect_task_local:
  assumes "c_getBalance env' j = c_getBalance env j"
    and "c_getFeeData env' j = c_getFeeData env j"
    and "c_getTransactionCount env' j = c_getTransactionCount env j"
    and "c_sendTransaction env' j = c_sendTransaction env j"
  shows "collect_task env' wm j w = collect_task env wm j w"
  unfolding collect_task_def assms ..

lemma collectAllFunds_summary:
  assumes "c_finalBalance env = Inr fb"
  shows "fst (collectAllFunds env wm)
     = Inr \<lparr>successfulCollections =
              length (filter success
                (map (\<lambda>(index, wallet). fst (collect_task env wm index wallet))
                   (enumerate 0 (childWallets wm)))),
            totalWallets = length (childWallets wm),
            totalCollected =
              sum_list (map amount (filter success
                (map (\<lambda>(index, wallet). fst (collect_task env wm index wallet))
                   (enumerate 0 (childWallets wm))))),
            finalMasterBalance = fb\<rparr>"
proof -
  have m: "map fst (map (\<lambda>(index, wallet). collect_task env wm index wallet)
                  (enumerate 0 (childWallets wm)))
        = map (\<lambda>(index, wallet). fst (collect_task env wm index wallet))
            (enumerate 0 (childWallets wm))"
    by (simp add: comp_def case_prod_unfold)
  show ?thesis
    unfolding collectAllFunds_def Let_def m aggregate_eq using assms by simp
qed


lemma collect_results_nth:
  "i < length (childWallets wm) \<Longrightarrow>
   map (\<lambda>(index, wallet). fst (collect_task env wm index wallet))
       (enumerate 0 (childWallets wm)) ! i
     = fst (collect_task env wm i (childWallets wm ! i))"
  by (simp add: nth_enumerate_eq)

text \<open>
  C9. The task of a child wallet records a success with amount 0, and sends nothing, when
  the balance is zero or not above the estimated gas cost; when the balance is above the
  cost it sends the balance less the cost to the master wallet, with the pending count
  as nonce, and records the amount as a success if the receipt has status 1 and a failure
  otherwise. A rejected query, broadcast or wait makes the task record a failure. The
  result of a task depends on the answers to its own calls only, there is one result per
  child wallet, and, the final query of the master balance answered, the summary gives
  the number of successes, the number of wallets, the sum of the amounts of the successes
  and the final balance of the master wallet.
\<close>

theorem c9_collectAllFunds:
  fixes env :: collect_env and wm :: wallet_manager and results
  defines "results \<equiv> map (\<lambda>(index, wallet). fst (collect_task env wm index wallet))
                         (enumerate 0 (childWallets wm))"
  shows "(c_getBalance env i0 = Inr 0
            \<longrightarrow> collect_task env wm i0 w0 = (\<lparr>success = True, amount = 0\<rparr>, []))
       \<and> (c_getBalance env i1 = Inr b1 \<and> c_getFeeData env i1 = Inr f1
            \<and> b1 \<le> estimatedGasCost f1
            \<longrightarrow> collect_task env wm i1 w1 = (\<lparr>success = True, amount = 0\<rparr>, []))
       \<and> (c_getBalance env i2 = Inr b2 \<and> b2 \<noteq> 0 \<and> c_getFeeData env i2 = Inr f2
            \<and> estimatedGasCost f2 < b2 \<and> c_getTransactionCount env i2 = Inr n2
            \<and> c_sendTransaction env i2
                 \<lparr>tx_from = address w2, tx_to = address (masterWallet wm),
                  tx_value = b2 - estimatedGasCost f2, tx_nonce = n2\<rparr>
                = Broadcast h2 (Mined r2)
            \<longrightarrow> collect_task env wm i2 w2
                  = (if status r2 = Some 1
                     then \<lparr>success = True, amount = b2 - estimatedGasCost f2\<rparr>
                     else \<lparr>success = False, amount = 0\<rparr>,
                     [\<lparr>tx_from = address w2, tx_to = address (masterWallet wm),
                       tx_value = b2 - estimatedGasCost f2, tx_nonce = n2\<rparr>]))
       \<and> (c_getBalance env i3 = Inl e3
            \<or> c_getBalance env i3 = Inr b3 \<and> b3 \<noteq> 0 \<and> c_getFeeData env i3 = Inl e3
            \<or> c_getBalance env i3 = Inr b3 \<and> b3 \<noteq> 0 \<and> c_getFeeData env i3 = Inr f3
               \<and> estimatedGasCost f3 < b3
               \<and> (c_getTransactionCount env i3 = Inl e3
                  \<or> c_getTransactionCount env i3 = Inr n3
                     \<and> (c_sendTransaction env i3
                           \<lparr>tx_from = address w3, tx_to = address (masterWallet wm),
                            tx_value = b3 - estimatedGasCost f3, tx_nonce = n3\<rparr>
                          = SendThrows e3
                        \<or> c_sendTransaction env i3
                           \<lparr>tx_from = address w3, tx_to = address (masterWallet wm),
                            tx_value = b3 - estimatedGasCost f3, tx_nonce = n3\<rparr>
                          = Broadcast h3 (WaitThrows e3)))
            \<longrightarrow> fst (collect_task env wm i3 w3) = \<lparr>success = False, amount = 0\<rparr>)
       \<and> (c_getBalance env' j = c_getBalance env j \<and> c_getFeeData env' j = c_getFeeData env j
            \<and> c_getTransactionCount env' j = c_getTransactionCount env j
            \<and> c_sendTransaction env' j = c_sendTransaction env j
            \<longrightarrow> collect_task env' wm j w = collect_task env wm j w)
       \<and> length results = length (childWallets wm)
       \<and> (\<forall>i < length (childWallets wm).
             results ! i = fst (collect_task env wm i (childWallets wm ! i)))
       \<and> (c_finalBalance env = Inr fb
            \<longrightarrow> fst (collectAllFunds env wm)
                  = Inr \<lparr>successfulCollections = length (filter success results),
                         totalWallets = length (childWallets wm),
                         totalCollected = sum_list (map amount (filter success results)),
                         finalMasterBalance = fb\<rparr>)"
proof -
  have 1: "c_getBalance env i0 = Inr 0
            \<longrightarrow> collect_task env wm i0 w0 = (\<lparr>success = True, amount = 0\<rparr>, [])"
    by (simp add: collect_task_def)
  have 2: "c_getBalance env i1 = Inr b1 \<and> c_getFeeData env i1 = Inr f1
            \<and> b1 \<le> estimatedGasCost f1
            \<longrightarrow> collect_task env wm i1 w1 = (\<lparr>success = True, amount = 0\<rparr>, [])"
    by (simp add: collect_task_def)
  have 3: "c_getBalance env i2 = Inr b2 \<and> b2 \<noteq> 0 \<and> c_getFeeData env i2 = Inr f2
            \<and> estimatedGasCost f2 < b2 \<and> c_getTransactionCount env i2 = Inr n2
            \<and> c_sendTransaction env i2
                 \<lparr>tx_from = address w2, tx_to = address (masterWallet wm),
                  tx_value = b2 - estimatedGasCost f2, tx_nonce = n2\<rparr>
                = Broadcast h2 (Mined r2)
            \<longrightarrow> collect_task env wm i2 w2
                  = (if status r2 = Some 1
                     then \<lparr>success = True, amount = b2 - estimatedGasCost f2\<rparr>
                     else \<lparr>success = False, amount = 0\<rparr>,
                     [\<lparr>tx_from = address w2, tx_to = address (masterWallet wm),
                       tx_value = b2 - estimatedGasCost f2, tx_nonce = n2\<rparr>])"
    by (simp add: collect_task_def collect_failed_def Let_def)
  have 4: "c_getBalance env i3 = Inl e3
            \<or> c_getBalance env i3 = Inr b3 \<and> b3 \<noteq> 0 \<and> c_getFeeData env i3 = Inl e3
            \<or> c_getBalance env i3 = Inr b3 \<and> b3 \<noteq> 0 \<and> c_getFeeData env i3 = Inr f3
               \<and> estimatedGasCost f3 < b3
               \<and> (c_getTransactionCount env i3 = Inl e3
                  \<or> c_getTransactionCount env i3 = Inr n3
                     \<and> (c_sendTransaction env i3
                           \<lparr>tx_from = address w3, tx_to = address (masterWallet wm),
                            tx_value = b3 - estimatedGasCost f3, tx_nonce = n3\<rparr>
                          = SendThrows e3
                        \<or> c_sendTransaction env i3
                           \<lparr>tx_from = address w3, tx_to = address (masterWallet wm),
                            tx_value = b3 - estimatedGasCost f3, tx_nonce = n3\<rparr>
                          = Broadcast h3 (WaitThrows e3)))
            \<longrightarrow> fst (collect_task env wm i3 w3) = \<lparr>success = False, amount = 0\<rparr>"
    by (auto simp: collect_task_def collect_failed_def Let_def)
  have 5: "c_getBalance env' j = c_getBalance env j \<and> c_getFeeData env' j = c_getFeeData env j
            \<and> c_getTransactionCount env' j = c_getTransactionCount env j
            \<and> c_sendTransaction env' j = c_sendTransaction env j
            \<longrightarrow> collect_task env' wm j w = collect_task env wm j w"
    using collect_task_local by blast
  have 6: "length results = length (childWallets wm)"
    by (simp add: results_def)
  have 7: "\<forall>i < length (childWallets wm).
             results ! i = fst (collect_task env wm i (childWallets wm ! i))"
    unfolding results_def using collect_results_nth by blast
  have 8: "c_finalBalance env = Inr fb
            \<longrightarrow> fst (collectAllFunds env wm)
                  = Inr \<lparr>successfulCollections = length (filter success results),
                         totalWallets = length (childWallets wm),
                         totalCollected = sum_list (map amount (filter success results)),
                         finalMasterBalance = fb\<rparr>"
    unfolding results_def using collectAllFunds_summary by blast
  from 1 2 3 4 5 6 7 8 show ?thesis by blast
qed

lemma sample_pool_4: "childWallets (sample_pool 4)
   = [Wallet ''a'', Wallet ''aa'', Wallet ''aaa'', Wallet ''aaaa'']"
  by (simp add: sample_pool_def sample_createRandom_def upt_rec)

theorem c9_collectAllFunds_witness:
  "collect_task sample_collect (sample_pool 4) 0 (Wallet ''a'')
     = (\<lparr>success = True, amount = 0\<rparr>, [])
   \<and> estimatedGasCost None = 20000000000000000
   \<and> collect_task sample_collect (sample_pool 4) 1 (Wallet ''aa'')
     = (\<lparr>success = True, amount = 0\<rparr>, [])
   \<and> collect_task sample_collect (sample_pool 4) 2 (Wallet ''aaa'')
     = (\<lparr>success = True, amount = 980000000000000000\<rparr>,
        [\<lparr>tx_from = ''aaa'', tx_to = ''m'', tx_value = 980000000000000000, tx_nonce = 3\<rparr>])
   \<and> fst (collect_task sample_collect (sample_pool 4) 3 (Wallet ''aaaa''))
     = \<lparr>success = False, amount = 0\<rparr>
   \<and> collect_task (sample_collect\<lparr>c_finalBalance := Inl (Error ''timeout'')\<rparr>)
         (sample_pool 4) 2 (Wallet ''aaa'')
     = collect_task sample_collect (sample_pool 4) 2 (Wallet ''aaa'')
   \<and> fst (collectAllFunds sample_collect (sample_pool 4))
     = Inr \<lparr>successfulCollections = 3, totalWallets = 4,
            totalCollected = 980000000000000000,
            finalMasterBalance = 980000000000000000\<rparr>"
proof -
  have g: "estimatedGasCost None = 20000000000000000"
    by (simp add: estimatedGasCost_def)
  have m: "address (masterWallet (sample_pool 4)) = ''m''"
    by (simp add: sample_pool_def)
  have r: "map (\<lambda>(index, wallet). fst (collect_task sample_collect (sample_pool 4) index wallet))
             (enumerate 0 (childWallets (sample_pool 4)))
           = [\<lparr>success = True, amount = 0\<rparr>, \<lparr>success = True, amount = 0\<rparr>,
              \<lparr>success = True, amount = 980000000000000000\<rparr>,
              \<lparr>success = False, amount = 0\<rparr>]"
    by (simp add: sample_pool_4 enumerate_eq_zip upt_rec collect_task_def collect_failed_def
          sample_collect_def g m Let_def)
  have hb: "c_getBalance sample_collect 0 = Inr 0" "c_getBalance sample_collect 1 = Inr 5"
    "c_getBalance sample_collect 2 = Inr 1000000000000000000"
    "c_getBalance sample_collect 3 = Inl (Error ''timeout'')"
    by (simp_all add: sample_collect_def)
  have hf: "c_getFeeData sample_collect 1 = Inr None" "c_getFeeData sample_collect 2 = Inr None"
    by (simp_all add: sample_collect_def)
  have hn: "c_getTransactionCount sample_collect 2 = Inr 3"
    by (simp add: sample_collect_def)
  have hs: "c_sendTransaction sample_collect 2
              \<lparr>tx_from = ''aaa'', tx_to = ''m'', tx_value = 980000000000000000, tx_nonce = 3\<rparr>
            = Broadcast ''0xdef'' (Mined (Receipt (Some 1) 9))"
    by (simp add: sample_collect_def)
  have hfin: "c_finalBalance sample_collect = Inr 980000000000000000"
    by (simp add: sample_collect_def)
  show ?thesis
    using c9_collectAllFunds [where env = sample_collect and wm = "sample_pool 4"
        and ?i0.0 = 0 and ?w0.0 = "Wallet ''a''"
        and ?i1.0 = 1 and ?b1.0 = 5 and ?f1.0 = None and ?w1.0 = "Wallet ''aa''"
        and ?i2.0 = 2 and ?b2.0 = 1000000000000000000 and ?f2.0 = None and ?n2.0 = 3
        and ?w2.0 = "Wallet ''aaa''" and ?h2.0 = "''0xdef''" and ?r2.0 = "Receipt (Some 1) 9"
        and ?i3.0 = 3 and ?e3.0 = "Error ''timeout''" and ?w3.0 = "Wallet ''aaaa''"
        and ?b3.0 = 0 and ?f3.0 = None and ?n3.0 = 0 and ?h3.0 = "[]"
        and env' = "sample_collect\<lparr>c_finalBalance := Inl (Error ''timeout'')\<rparr>"
        and j = 2 and w = "Wallet ''aaa''"
        and fb = 980000000000000000]
      hb hf hn hs hfin
    by (simp add: r g m)
qed

end
